theory Spec2Isabelle
  imports Main
begin

section \<open>Board view: data model\<close>

text \<open>
  The board view of \<^verbatim>\<open>src/ui/views/Board/BoardView.svelte\<close>. A record of the data
  frame has a stable id and a bag of field values; the view keeps a persisted
  \<^verbatim>\<open>BoardConfig\<close> and reacts to drag-and-drop events with \<^verbatim>\<open>handleRecordUpdate\<close> and
  to column reordering with \<^verbatim>\<open>handleSortColumns\<close>.

  Field values are JavaScript values; the handler only ever compares a stored value with
  a position (strict inequality \<^verbatim>\<open>!==\<close>) and writes a string or a number, so a value is a
  tagged union and numbers are integers.
\<close>

datatype data_value = VString string | VNumber int | VBool bool | VNull

text \<open>
  \<^verbatim>\<open>DataRecord\<close>, as the handler uses it (\<^verbatim>\<open>r.id\<close>, \<^verbatim>\<open>r.values[name]\<close>); the selectors are
  \<^verbatim>\<open>id\<close> and \<^verbatim>\<open>values\<close> in the source. A field without a value is not in the map.
\<close>

record data_record =
  id_r :: string
  values_r :: "string \<rightharpoonup> data_value"

text \<open>\<^verbatim>\<open>DataField\<close>: the handlers read nothing but the name.\<close>

record data_field =
  name :: string

text \<open>
  Modelled from the spec: the type \<^verbatim>\<open>BoardConfig\<close> of \<^verbatim>\<open>./types\<close> is not part of the sources at
  hand. The specification gives the persisted shape, which is also all the handlers read
  and write:
  \<^verbatim>\<open>{ orderSyncField?: string, columns?: { [key]: { weight?: number, records?: string[] } } }\<close>.
  Every optional property is an \<open>option\<close>.
\<close>

record column_settings =
  weight :: "int option"
  records :: "string list option"

record board_config =
  orderSyncField :: "string option"
  columns :: "(string \<rightharpoonup> column_settings) option"

text \<open>
  Modelled from the spec: the type of the trigger (\<^verbatim>\<open>./components/Board/types\<close>) is not part
  of the sources at hand. The handler compares the trigger with \<^verbatim>\<open>"addToColumn"\<close> and with
  \<^verbatim>\<open>"removeFromColumn"\<close>; the specification lists a third event, the reordering within a
  column, which the handler treats as neither.
\<close>

datatype trigger = addToColumn | removeFromColumn | reorderWithinColumn

text \<open>
  The component state the handlers close over: the props \<^verbatim>\<open>config\<close>, \<^verbatim>\<open>hasSort\<close>,
  \<^verbatim>\<open>hasFilter\<close>, \<^verbatim>\<open>getRecord\<close>, and the lookup of a field of the frame by its name
  (\<^verbatim>\<open>getFieldByName(fields, _)\<close>, a helper of \<^verbatim>\<open>./board\<close> taken as a parameter).
\<close>

record board_view =
  config :: "board_config option"
  hasSort :: bool
  hasFilter :: bool
  getRecord :: "string \<Rightarrow> data_record option"
  getFieldByName :: "string \<Rightarrow> data_field option"

text \<open>
  What a handler does to the outside: the new component state (\<^verbatim>\<open>saveConfig\<close> assigns
  \<^verbatim>\<open>config\<close>), the calls of \<^verbatim>\<open>onConfigChange\<close> and the calls of \<^verbatim>\<open>api.updateRecord\<close>, in
  order.
\<close>

record outcome =
  view :: board_view
  configChanges :: "board_config list"
  recordUpdates :: "data_record list"

section \<open>JavaScript array operations\<close>

text \<open>\<^verbatim>\<open>Array.prototype.findIndex\<close>: the first index whose element satisfies the predicate, \<open>-1\<close> if none.\<close>

fun findIndex :: "('a \<Rightarrow> bool) \<Rightarrow> 'a list \<Rightarrow> int" where
  "findIndex P [] = - 1"
| "findIndex P (x # xs) =
     (if P x then 0
      else (let i = findIndex P xs in if i = - 1 then - 1 else i + 1))"

text \<open>An indexed read \<^verbatim>\<open>xs[i]\<close>: \<^verbatim>\<open>undefined\<close> out of range, also for a negative index.\<close>

definition at :: "'a list \<Rightarrow> int \<Rightarrow> 'a option" where
  "at xs i = (if 0 \<le> i \<and> i < int (length xs) then Some (xs ! nat i) else None)"

text \<open>The start index of \<^verbatim>\<open>splice\<close>: counted from the end when negative, clamped to the length.\<close>

definition spliceStart :: "'a list \<Rightarrow> int \<Rightarrow> nat" where
  "spliceStart xs start =
     (if start < 0 then nat (max (int (length xs) + start) 0)
      else min (nat start) (length xs))"

text \<open>\<^verbatim>\<open>xs.splice(start, 1)\<close> and \<^verbatim>\<open>xs.splice(start, 0, x)\<close>, returning the array afterwards.\<close>

definition spliceRemove :: "'a list \<Rightarrow> int \<Rightarrow> 'a list" where
  "spliceRemove xs start =
     (let s = spliceStart xs start in take s xs @ drop (Suc s) xs)"

definition spliceInsert :: "'a list \<Rightarrow> int \<Rightarrow> 'a \<Rightarrow> 'a list" where
  "spliceInsert xs start x =
     (let s = spliceStart xs start in take s xs @ [x] @ drop s xs)"

text \<open>\<^verbatim>\<open>Object.fromEntries\<close>: a later entry overwrites an earlier one with the same key.\<close>

definition fromEntries :: "('k \<times> 'v) list \<Rightarrow> ('k \<rightharpoonup> 'v)" where
  "fromEntries es = foldl (\<lambda>m (k, v). m(k \<mapsto> v)) Map.empty es"

section \<open>The handlers\<close>

text \<open>
  Modelled from the spec: \<^verbatim>\<open>updateRecordValues\<close> of \<^verbatim>\<open>src/lib/datasources/helpers\<close> is not
  part of the sources at hand. It returns a copy of the record whose values are
  overwritten by the given ones (the handler stamps the grouping field and sets the
  sync field with it); the id is untouched.
\<close>

definition updateRecordValues :: "data_record \<Rightarrow> (string \<rightharpoonup> data_value) \<Rightarrow> data_record" where
  "updateRecordValues record vals = record\<lparr>values_r := values_r record ++ vals\<rparr>"

text \<open>
  The reactive declaration of \<^verbatim>\<open>orderSyncField\<close>:
  \<^verbatim>\<open>(config?.orderSyncField && getFieldByName(fields, config.orderSyncField)) || undefined\<close>.
  An empty string is falsy.
\<close>

definition orderSyncFieldOf :: "board_view \<Rightarrow> data_field option" where
  "orderSyncFieldOf v =
     (case config v of
        None \<Rightarrow> None
      | Some c \<Rightarrow>
          (case orderSyncField c of
             None \<Rightarrow> None
           | Some n \<Rightarrow> if n = [] then None else getFieldByName v n))"

text \<open>\<^verbatim>\<open>orderSyncField?.name\<close>, as the handler tests it: \<open>None\<close> when it is falsy.\<close>

definition orderSyncFieldName :: "board_view \<Rightarrow> string option" where
  "orderSyncFieldName v =
     (case orderSyncFieldOf v of
        None \<Rightarrow> None
      | Some f \<Rightarrow> if name f = [] then None else Some (name f))"

text \<open>\<^verbatim>\<open>config?.columns?.[column]\<close>.\<close>

definition columnEntry :: "board_config option \<Rightarrow> string \<Rightarrow> column_settings option" where
  "columnEntry cfg column =
     (case cfg of
        None \<Rightarrow> None
      | Some c \<Rightarrow> (case columns c of None \<Rightarrow> None | Some m \<Rightarrow> m column))"

text \<open>\<^verbatim>\<open>config?.columns?.[column]?.records\<close>.\<close>

definition columnRecords :: "board_config option \<Rightarrow> string \<Rightarrow> string list option" where
  "columnRecords cfg column =
     (case columnEntry cfg column of None \<Rightarrow> None | Some e \<Rightarrow> records e)"

text \<open>
  \<^verbatim>\<open>config?.columns?.[column]?.records?.map((r) => getRecord(r)).filter(notUndefined)\<close>:
  \<open>None\<close> when the chain is cut short, otherwise the records the ids resolve to.
\<close>

definition configRecordsOf :: "board_view \<Rightarrow> string \<Rightarrow> data_record list option" where
  "configRecordsOf v column =
     (case columnRecords (config v) column of
        None \<Rightarrow> None
      | Some ids \<Rightarrow> Some (List.map_filter (getRecord v) ids))"

text \<open>The object spreads \<^verbatim>\<open>{...config?.columns}\<close> and \<^verbatim>\<open>{...config?.columns?.[column]}\<close>.\<close>

definition spreadColumns :: "board_config option \<Rightarrow> (string \<rightharpoonup> column_settings)" where
  "spreadColumns cfg =
     (case cfg of
        None \<Rightarrow> Map.empty
      | Some c \<Rightarrow> (case columns c of None \<Rightarrow> Map.empty | Some m \<Rightarrow> m))"

definition spreadColumn :: "board_config option \<Rightarrow> string \<Rightarrow> column_settings" where
  "spreadColumn cfg column =
     (case columnEntry cfg column of
        None \<Rightarrow> \<lparr>weight = None, records = None\<rparr>
      | Some e \<Rightarrow> e)"

text \<open>\<^verbatim>\<open>{...config, columns: cols}\<close>.\<close>

definition withColumns :: "board_config option \<Rightarrow> (string \<rightharpoonup> column_settings) \<Rightarrow> board_config" where
  "withColumns cfg cols =
     (case cfg of
        None \<Rightarrow> \<lparr>orderSyncField = None, columns = Some cols\<rparr>
      | Some c \<Rightarrow> c\<lparr>columns := Some cols\<rparr>)"

text \<open>\<^verbatim>\<open>saveConfig\<close>: assigns the component's \<^verbatim>\<open>config\<close> and calls \<^verbatim>\<open>onConfigChange\<close>.\<close>

definition saveConfig :: "board_view \<Rightarrow> board_config \<Rightarrow> board_view \<times> board_config list" where
  "saveConfig v cfg = (v\<lparr>config := Some cfg\<rparr>, [cfg])"

text \<open>Lines 69 to 73: the grouping field of the record is set to the column on \<^verbatim>\<open>addToColumn\<close>.\<close>

definition stampGroupBy :: "data_field option \<Rightarrow> trigger \<Rightarrow> string \<Rightarrow> data_record \<Rightarrow> data_record" where
  "stampGroupBy groupByField trg column record =
     (case groupByField of
        None \<Rightarrow> record
      | Some g \<Rightarrow>
          if trg = addToColumn \<and> name g \<noteq> []
          then updateRecordValues record [name g \<mapsto> VString column]
          else record)"

text \<open>
  Lines 106 to 122: the position at which a record is inserted while a filter is active,
  relative to its neighbours in the list the board supplies.
\<close>

definition insertPosition :: "data_record list \<Rightarrow> data_record list \<Rightarrow> data_record \<Rightarrow> int" where
  "insertPosition configRecords recs record =
     (let index = findIndex (\<lambda>r. id_r r = id_r record) recs;
          before = at recs (index - 1);
          after = at recs (index + 1);
          position = - 1;
          position =
            (case before of
               None \<Rightarrow> position
             | Some b \<Rightarrow>
                 (let beforeIndex = findIndex (\<lambda>r. id_r r = id_r b) configRecords
                  in if beforeIndex \<noteq> - 1 then beforeIndex + 1 else position));
          position =
            (case after of
               None \<Rightarrow> position
             | Some a \<Rightarrow>
                 if position = - 1
                 then findIndex (\<lambda>r. id_r r = id_r a) configRecords
                 else position);
          position = (if position = - 1 then int (length configRecords) else position)
      in position)"

text \<open>Lines 84 to 87: \<^verbatim>\<open>configRecordIndex\<close> and \<^verbatim>\<open>isRecordInConfig\<close>.\<close>

definition configRecordIndex :: "data_record list \<Rightarrow> data_record \<Rightarrow> int" where
  "configRecordIndex configRecords record = findIndex (\<lambda>r. id_r r = id_r record) configRecords"

definition isRecordInConfig :: "data_record list \<Rightarrow> data_record \<Rightarrow> bool" where
  "isRecordInConfig configRecords record = (configRecordIndex configRecords record \<noteq> - 1)"

text \<open>Lines 89 to 94: the record is taken out on removal, and whenever no sort is active.\<close>

definition stripRecord :: "board_view \<Rightarrow> data_record list \<Rightarrow> data_record \<Rightarrow> trigger \<Rightarrow> data_record list" where
  "stripRecord v configRecords record trg =
     (if isRecordInConfig configRecords record \<and> (trg = removeFromColumn \<or> \<not> hasSort v)
      then spliceRemove configRecords (configRecordIndex configRecords record)
      else configRecords)"

text \<open>
  Lines 84 to 126: the list resolved from the config, after the record is removed and
  inserted. \<^verbatim>\<open>isRecordInConfig\<close> is computed before the removal, and read after it.
\<close>

definition placeRecord ::
  "board_view \<Rightarrow> data_record list \<Rightarrow> data_record \<Rightarrow> data_record list \<Rightarrow> trigger \<Rightarrow> data_record list" where
  "placeRecord v configRecords0 record recs trg =
     (let configRecords = stripRecord v configRecords0 record trg
      in if trg = addToColumn then
           (if hasSort v then
              (if \<not> isRecordInConfig configRecords0 record
               then configRecords @ [record]
               else configRecords)
            else if hasFilter v then
              spliceInsert configRecords (insertPosition configRecords recs record) record
            else configRecords)
         else configRecords)"

text \<open>Lines 128 to 137: the records of the board that the config does not list go to the end.\<close>

definition remaining :: "data_record list \<Rightarrow> data_record \<Rightarrow> data_record list \<Rightarrow> data_record list" where
  "remaining configRecords record recs =
     filter (\<lambda>r1. id_r r1 \<noteq> id_r record \<and>
                  find (\<lambda>r2. id_r r2 = id_r r1) configRecords = None) recs"

text \<open>
  Lines 77 to 140: the final order of the column and \<^verbatim>\<open>isConfigRecordsLoaded\<close>. An array is
  truthy even when empty, so the branch runs whenever the optional chain yields a list.
\<close>

definition reconcile ::
  "board_view \<Rightarrow> data_record \<Rightarrow> string \<Rightarrow> data_record list \<Rightarrow> trigger \<Rightarrow> data_record list \<times> bool" where
  "reconcile v record column recs trg =
     (if hasSort v \<or> hasFilter v then
        (case configRecordsOf v column of
           None \<Rightarrow> (recs, False)
         | Some configRecords \<Rightarrow>
             (let placed = placeRecord v configRecords record recs trg
              in (placed @ remaining placed record recs, True)))
      else (recs, False))"

text \<open>Lines 164 to 176: the loop over the final order, with its index.\<close>

fun syncUpdates :: "string \<Rightarrow> data_record \<Rightarrow> data_record list \<Rightarrow> nat \<Rightarrow> data_record list" where
  "syncUpdates f record [] i = []"
| "syncUpdates f record (r # rs) i =
     (let recordToUpdate =
            (if id_r r = id_r record then Some record
             else if values_r r f \<noteq> Some (VNumber (int i)) then Some r
             else None)
      in (case recordToUpdate of
            None \<Rightarrow> []
          | Some u \<Rightarrow> [updateRecordValues u [f \<mapsto> VNumber (int i)]])
         @ syncUpdates f record rs (Suc i))"

text \<open>Lines 156 to 184: the records handed to \<^verbatim>\<open>api.updateRecord\<close>.\<close>

definition recordsToUpdate ::
  "board_view \<Rightarrow> data_record \<Rightarrow> data_record list \<Rightarrow> bool \<Rightarrow> trigger \<Rightarrow> data_record list" where
  "recordsToUpdate v record recs isConfigRecordsLoaded trg =
     (if trg \<noteq> removeFromColumn then
        (case orderSyncFieldName v of
           None \<Rightarrow> [record]
         | Some f \<Rightarrow>
             if isConfigRecordsLoaded \<or> \<not> hasSort v
             then syncUpdates f record recs 0
             else [record])
      else [])"

text \<open>Lines 142 to 151: the config that is saved.\<close>

definition columnConfig :: "board_config option \<Rightarrow> string \<Rightarrow> string list \<Rightarrow> board_config" where
  "columnConfig cfg column ids =
     withColumns cfg
       ((spreadColumns cfg)(column \<mapsto> (spreadColumn cfg column)\<lparr>records := Some ids\<rparr>))"

definition handleRecordUpdate ::
  "data_field option \<Rightarrow> board_view \<Rightarrow> data_record \<Rightarrow> string \<Rightarrow> data_record list \<Rightarrow> trigger \<Rightarrow> outcome" where
  "handleRecordUpdate groupByField v record0 column recs0 trg =
     (let record = stampGroupBy groupByField trg column record0;
          (recs, isConfigRecordsLoaded) = reconcile v record column recs0 trg;
          (v', changes) = saveConfig v (columnConfig (config v) column (map id_r recs))
      in \<lparr>view = v', configChanges = changes,
          recordUpdates = recordsToUpdate v record recs isConfigRecordsLoaded trg\<rparr>)"

text \<open>Lines 209 to 219: the columns are rebuilt from the names, each with its index as weight.\<close>

definition sortedColumns :: "board_config option \<Rightarrow> string list \<Rightarrow> (string \<rightharpoonup> column_settings)" where
  "sortedColumns cfg names =
     fromEntries
       (map (\<lambda>(i, n). (n, (spreadColumn cfg n)\<lparr>weight := Some (int i)\<rparr>))
            (enumerate 0 names))"

definition handleSortColumns :: "board_view \<Rightarrow> string list \<Rightarrow> outcome" where
  "handleSortColumns v names =
     (let (v', changes) = saveConfig v (withColumns (config v) (sortedColumns (config v) names))
      in \<lparr>view = v', configChanges = changes, recordUpdates = []\<rparr>)"

text \<open>The id list persisted for a column, read back from an outcome.\<close>

definition persisted :: "outcome \<Rightarrow> string \<Rightarrow> string list option" where
  "persisted out column = columnRecords (config (view out)) column"

section \<open>The statements of the specification\<close>

text \<open>
  The position the specification describes for a record added while a filter is active,
  in its own words: the index an id resolves to in a list, and the slot next to the
  neighbours (after the previous one if it resolves, else before the next one if it
  resolves, else the end).
\<close>

fun resolvedIndex :: "data_record list \<Rightarrow> string \<Rightarrow> nat option" where
  "resolvedIndex [] k = None"
| "resolvedIndex (r # rs) k =
     (if id_r r = k then Some 0 else map_option Suc (resolvedIndex rs k))"

definition neighbourIndex :: "data_record list \<Rightarrow> data_record option \<Rightarrow> nat option" where
  "neighbourIndex configRecords neighbour =
     (case neighbour of None \<Rightarrow> None | Some n \<Rightarrow> resolvedIndex configRecords (id_r n))"

definition neighbourSlot ::
  "data_record list \<Rightarrow> data_record option \<Rightarrow> data_record option \<Rightarrow> nat" where
  "neighbourSlot configRecords previous next =
     (case neighbourIndex configRecords previous of
        Some i \<Rightarrow> i + 1
      | None \<Rightarrow>
          (case neighbourIndex configRecords next of
             Some j \<Rightarrow> j
           | None \<Rightarrow> length configRecords))"

text \<open>
  The empty structures of the specification: a missing config is \<^verbatim>\<open>{columns: {}}\<close> without a
  sync field, a missing columns map is \<^verbatim>\<open>{}\<close>, a missing entry of the column is an entry
  without properties.
\<close>

definition withDefaults :: "board_config option \<Rightarrow> string \<Rightarrow> board_config option" where
  "withDefaults cfg column =
     Some (withColumns cfg
       ((spreadColumns cfg)(column \<mapsto> spreadColumn cfg column)))"

text \<open>... and a missing list of records of the column is the empty list.\<close>

definition withEmptyRecords :: "board_config option \<Rightarrow> string \<Rightarrow> board_config option" where
  "withEmptyRecords cfg column =
     Some (withColumns cfg
       ((spreadColumns cfg)(column \<mapsto>
          (case records (spreadColumn cfg column) of
             None \<Rightarrow> (spreadColumn cfg column)\<lparr>records := Some []\<rparr>
           | Some ids \<Rightarrow> spreadColumn cfg column))))"

text \<open>
  A contract of the hosting view: \<^verbatim>\<open>getRecord(id)\<close> answers with the record of that id,
  or with nothing.
\<close>

definition getRecordFaithful :: "board_view \<Rightarrow> bool" where
  "getRecordFaithful v = (\<forall>i r. getRecord v i = Some r \<longrightarrow> id_r r = i)"




section \<open>Scenarios\<close>

text \<open>
  Records without values named by their id, a frame of the records \<open>live\<close>, and a board
  whose column \<open>Done\<close> persists the list \<open>ids\<close>; \<open>pos\<close> is the sync field when there is one.
\<close>

definition plainRecord :: "string \<Rightarrow> data_record" where
  "plainRecord k = \<lparr>id_r = k, values_r = Map.empty\<rparr>"

definition placedRecord :: "string \<Rightarrow> int \<Rightarrow> data_record" where
  "placedRecord k n = \<lparr>id_r = k, values_r = [''pos'' \<mapsto> VNumber n]\<rparr>"

definition frameRecord :: "string list \<Rightarrow> string \<Rightarrow> data_record option" where
  "frameRecord live k = (if k \<in> set live then Some (plainRecord k) else None)"

definition frameField :: "string \<Rightarrow> data_field option" where
  "frameField n = (if n = ''pos'' then Some \<lparr>name = ''pos''\<rparr> else None)"

definition doneBoard ::
  "bool \<Rightarrow> bool \<Rightarrow> string list \<Rightarrow> string option \<Rightarrow> string list option \<Rightarrow> board_view" where
  "doneBoard srt flt live sync ids =
     \<lparr>config = Some \<lparr>orderSyncField = sync,
                       columns = Some [''Done'' \<mapsto> \<lparr>weight = Some 0, records = ids\<rparr>]\<rparr>,
      hasSort = srt, hasFilter = flt,
      getRecord = frameRecord live, getFieldByName = frameField\<rparr>"


text \<open>
  The list resolved from the config once the first record with the id \<open>k\<close> is taken out
  of it.
\<close>

definition withoutRecord :: "data_record list \<Rightarrow> string \<Rightarrow> data_record list" where
  "withoutRecord configRecords k =
     (case resolvedIndex configRecords k of
        None \<Rightarrow> configRecords
      | Some n \<Rightarrow> take n configRecords @ drop (Suc n) configRecords)"

text \<open>
  A board over a frame of records with values: \<^verbatim>\<open>getRecord\<close> finds the record of the frame
  with the id, the sync field is \<open>pos\<close>, the column \<open>Done\<close> persists the list \<open>ids\<close>.
\<close>

definition posBoard :: "bool \<Rightarrow> bool \<Rightarrow> data_record list \<Rightarrow> string list option \<Rightarrow> board_view" where
  "posBoard srt flt frame ids =
     \<lparr>config = Some \<lparr>orderSyncField = Some ''pos'',
                       columns = Some [''Done'' \<mapsto> \<lparr>weight = Some 0, records = ids\<rparr>]\<rparr>,
      hasSort = srt, hasFilter = flt,
      getRecord = (\<lambda>k. find (\<lambda>r. id_r r = k) frame), getFieldByName = frameField\<rparr>"

section \<open>Facts about the array operations\<close>

lemma findIndex_range: "- 1 \<le> findIndex P xs \<and> findIndex P xs < int (length xs)"
  by (induction xs) (auto simp: Let_def)

lemma findIndex_none: "findIndex P xs = - 1 \<longleftrightarrow> (\<forall>x \<in> set xs. \<not> P x)"
proof (induction xs)
  case Nil
  show ?case by simp
next
  case (Cons x xs)
  have "- 1 \<le> findIndex P xs" using findIndex_range [of P xs] by simp
  with Cons show ?case by (auto simp: Let_def)
qed

lemma findIndex_nth:
  assumes "findIndex P xs \<noteq> - 1"
  shows "P (xs ! nat (findIndex P xs))"
  using assms
proof (induction xs)
  case Nil
  then show ?case by simp
next
  case (Cons x xs)
  have "- 1 \<le> findIndex P xs" using findIndex_range [of P xs] by simp
  with Cons show ?case by (auto simp: Let_def nat_add_distrib split: if_splits)
qed

lemma spliceStart_index: "0 \<le> i \<Longrightarrow> i \<le> int (length xs) \<Longrightarrow> spliceStart xs i = nat i"
  by (simp add: spliceStart_def)

lemma spliceRemove_Cons:
  assumes "0 \<le> i" and "i < int (length xs)"
  shows "spliceRemove (x # xs) (i + 1) = x # spliceRemove xs i"
proof -
  from assms have a: "spliceStart (x # xs) (i + 1) = Suc (nat i)"
    by (simp add: spliceStart_index nat_add_distrib)
  from assms have b: "spliceStart xs i = nat i"
    by (simp add: spliceStart_index)
  show ?thesis by (simp add: spliceRemove_def a b Let_def)
qed

lemma spliceRemove_findIndex:
  assumes "distinct (map f xs)" and "findIndex (\<lambda>r. f r = k) xs \<noteq> - 1"
  shows "spliceRemove xs (findIndex (\<lambda>r. f r = k) xs) = filter (\<lambda>r. f r \<noteq> k) xs"
  using assms
proof (induction xs)
  case Nil
  then show ?case by simp
next
  case (Cons x xs)
  show ?case
  proof (cases "f x = k")
    case True
    from Cons.prems(1) have "f x \<notin> f ` set xs" by simp
    with True have "\<forall>r \<in> set xs. f r \<noteq> k" by blast
    then have "filter (\<lambda>r. f r \<noteq> k) xs = xs" by (simp add: filter_id_conv)
    with True show ?thesis by (simp add: spliceRemove_def spliceStart_def)
  next
    case False
    let ?i = "findIndex (\<lambda>r. f r = k) xs"
    from False Cons.prems have ne: "?i \<noteq> - 1" by (auto simp: Let_def split: if_splits)
    have rng: "- 1 \<le> ?i \<and> ?i < int (length xs)" by (rule findIndex_range)
    with ne have pos: "0 \<le> ?i" by simp
    from Cons.IH Cons.prems ne have IH: "spliceRemove xs ?i = filter (\<lambda>r. f r \<noteq> k) xs" by simp
    from pos rng have "spliceRemove (x # xs) (?i + 1) = x # spliceRemove xs ?i"
      by (simp add: spliceRemove_Cons)
    with False ne IH show ?thesis by (simp add: Let_def)
  qed
qed

lemma spliceInsert_index:
  "0 \<le> p \<Longrightarrow> p \<le> int (length xs) \<Longrightarrow> spliceInsert xs p x = take (nat p) xs @ [x] @ drop (nat p) xs"
  by (simp add: spliceInsert_def spliceStart_index Let_def)


section \<open>Facts about the handlers\<close>

lemma id_updateRecordValues: "id_r (updateRecordValues r vals) = id_r r"
  by (simp add: updateRecordValues_def)

lemma id_stampGroupBy: "id_r (stampGroupBy g trg column r) = id_r r"
  by (simp add: stampGroupBy_def id_updateRecordValues split: option.splits)

lemma columnRecords_columnConfig: "columnRecords (Some (columnConfig cfg column ids)) column = Some ids"
  by (simp add: columnRecords_def columnEntry_def columnConfig_def withColumns_def split: option.splits)

lemma persisted_handleRecordUpdate:
  "persisted (handleRecordUpdate g v r0 column recs trg) column =
     Some (map id_r (fst (reconcile v (stampGroupBy g trg column r0) column recs trg)))"
  by (simp add: persisted_def handleRecordUpdate_def saveConfig_def columnRecords_columnConfig
      Let_def case_prod_beta)

lemma recordUpdates_handleRecordUpdate:
  "recordUpdates (handleRecordUpdate g v r0 column recs trg) =
     (let record = stampGroupBy g trg column r0;
          rl = reconcile v record column recs trg
      in recordsToUpdate v record (fst rl) (snd rl) trg)"
  by (simp add: handleRecordUpdate_def saveConfig_def Let_def case_prod_beta)

lemma reconcile_loaded:
  "snd (reconcile v record column recs trg) \<longleftrightarrow>
     (hasSort v \<or> hasFilter v) \<and> configRecordsOf v column \<noteq> None"
  by (simp add: reconcile_def Let_def split: option.splits)

lemma reconcile_verbatim:
  "\<not> snd (reconcile v record column recs trg) \<Longrightarrow> fst (reconcile v record column recs trg) = recs"
  by (simp add: reconcile_def Let_def split: option.splits if_splits)

lemma reconcile_config:
  "hasSort v \<or> hasFilter v \<Longrightarrow> configRecordsOf v column = Some cr0 \<Longrightarrow>
   fst (reconcile v record column recs trg) =
     placeRecord v cr0 record recs trg @ remaining (placeRecord v cr0 record recs trg) record recs"
  by (simp add: reconcile_def Let_def)

lemma findIndex_resolvedIndex:
  "findIndex (\<lambda>r. id_r r = k) xs = (case resolvedIndex xs k of None \<Rightarrow> - 1 | Some i \<Rightarrow> int i)"
  by (induction xs) (auto simp: Let_def split: option.splits)

lemma resolvedIndex_less: "resolvedIndex xs k = Some i \<Longrightarrow> i < length xs \<and> id_r (xs ! i) = k"
  by (induction xs arbitrary: i) (auto split: if_splits)

lemma neighbourSlot_le: "neighbourSlot cr b a \<le> length cr"
  by (auto simp: neighbourSlot_def neighbourIndex_def split: option.splits dest!: resolvedIndex_less)

lemma insertPosition_neighbourSlot:
  "insertPosition cr recs record =
     int (neighbourSlot cr (at recs (findIndex (\<lambda>r. id_r r = id_r record) recs - 1))
                           (at recs (findIndex (\<lambda>r. id_r r = id_r record) recs + 1)))"
  by (simp add: insertPosition_def neighbourSlot_def neighbourIndex_def findIndex_resolvedIndex Let_def
      split: option.splits)

lemma isRecordInConfig_iff: "isRecordInConfig cr record \<longleftrightarrow> id_r record \<in> set (map id_r cr)"
  by (auto simp: isRecordInConfig_def configRecordIndex_def findIndex_none intro: rev_image_eqI)

lemma remaining_filter:
  "remaining placed record recs =
     filter (\<lambda>r. id_r r \<noteq> id_r record \<and> id_r r \<notin> set (map id_r placed)) recs"
proof -
  have "find (\<lambda>r2. id_r r2 = k) placed = None \<longleftrightarrow> k \<notin> set (map id_r placed)" for k
    by (auto simp: find_None_iff)
  then show ?thesis by (simp add: remaining_def)
qed

section \<open>Insertion next to the neighbours while a filter is active\<close>

lemma stripRecord_withoutRecord:
  assumes "trg = removeFromColumn \<or> \<not> hasSort v"
  shows "stripRecord v cr0 rcd trg = withoutRecord cr0 (id_r rcd)"
proof (cases "resolvedIndex cr0 (id_r rcd)")
  case None
  then have "findIndex (\<lambda>r. id_r r = id_r rcd) cr0 = - 1"
    by (simp add: findIndex_resolvedIndex)
  with None show ?thesis
    by (simp add: stripRecord_def isRecordInConfig_def configRecordIndex_def withoutRecord_def)
next
  case (Some n)
  then have i: "findIndex (\<lambda>r. id_r r = id_r rcd) cr0 = int n"
    by (simp add: findIndex_resolvedIndex)
  from Some have "n < length cr0"
    by (simp add: resolvedIndex_less)
  then have "spliceStart cr0 (int n) = n"
    by (simp add: spliceStart_index)
  then have "spliceRemove cr0 (int n) = take n cr0 @ drop (Suc n) cr0"
    by (simp add: spliceRemove_def)
  with Some i assms show ?thesis
    by (simp add: stripRecord_def isRecordInConfig_def configRecordIndex_def withoutRecord_def)
qed

lemma resolvedIndex_None_iff: "resolvedIndex xs k = None \<longleftrightarrow> k \<notin> set (map id_r xs)"
  by (induction xs) auto

lemma withoutRecord_absent: "k \<notin> set (map id_r cr0) \<Longrightarrow> withoutRecord cr0 k = cr0"
  by (simp add: withoutRecord_def resolvedIndex_None_iff [THEN iffD2])

text \<open>
  Claim C1, as amended. On \<^verbatim>\<open>addToColumn\<close> with no sort and an active filter, where the
  persisted list of the column resolves to \<open>cr0\<close>: the handler first takes the mutated
  record out of \<open>cr0\<close> (lines 89 to 94), and the neighbours are resolved in what is left,
  \<open>cr\<close>. The record is inserted at the slot \<open>p\<close> of \<open>cr\<close>: behind the previous neighbour
  when that one resolves in \<open>cr\<close> (index \<open>i + 1\<close>), else in front of the next neighbour when
  that one resolves (index \<open>j\<close>), else at the end of \<open>cr\<close>. The persisted list is \<open>cr\<close>
  with the record at index \<open>p\<close>, followed by the records of the board the config did not
  list. When the record is not in \<open>cr0\<close>, \<open>cr\<close> is \<open>cr0\<close> and the indices are those of the
  resolved list. The neighbours are read as the handler reads them,
  \<^verbatim>\<open>records[index - 1]\<close> and \<^verbatim>\<open>records[index + 1]\<close> with \<open>index\<close> the position of the record in
  the supplied list.
\<close>

theorem filter_add_inserts_at_neighbour_slot:
  fixes g :: "data_field option" and record0 :: data_record and recs :: "data_record list"
  assumes "\<not> hasSort v" and "hasFilter v" and "configRecordsOf v column = Some cr0"
  defines "index \<equiv> findIndex (\<lambda>r. id_r r = id_r record0) recs"
  defines "cr \<equiv> withoutRecord cr0 (id_r record0)"
  defines "p \<equiv> neighbourSlot cr (at recs (index - 1)) (at recs (index + 1))"
  shows "p \<le> length cr \<and>
         persisted (handleRecordUpdate g v record0 column recs addToColumn) column =
           Some (map id_r (take p cr) @ id_r record0 # map id_r (drop p cr)
                 @ map id_r (filter (\<lambda>r. id_r r \<noteq> id_r record0 \<and> id_r r \<notin> set (map id_r cr)) recs)) \<and>
         (id_r record0 \<notin> set (map id_r cr0) \<longrightarrow> cr = cr0)"
proof -
  let ?rcd = "stampGroupBy g addToColumn column record0"
  have idr: "id_r ?rcd = id_r record0"
    by (simp add: id_stampGroupBy)
  from assms(1) have strip: "stripRecord v cr0 ?rcd addToColumn = cr"
    by (simp add: stripRecord_withoutRecord cr_def idr)
  have le: "p \<le> length cr"
    unfolding p_def by (rule neighbourSlot_le)
  have pos: "insertPosition cr recs ?rcd = int p"
    unfolding p_def index_def
    by (simp add: insertPosition_neighbourSlot idr)
  from assms(1,2) have "placeRecord v cr0 ?rcd recs addToColumn =
      spliceInsert cr (insertPosition cr recs ?rcd) ?rcd"
    by (simp add: placeRecord_def strip Let_def)
  also from le have "\<dots> = take p cr @ [?rcd] @ drop p cr"
    by (simp add: pos spliceInsert_index)
  finally have placed: "placeRecord v cr0 ?rcd recs addToColumn = take p cr @ [?rcd] @ drop p cr" .
  have "set (take p cr) \<union> set (drop p cr) = set cr"
    by (metis append_take_drop_id set_append)
  then have ids: "set (map id_r (take p cr @ [?rcd] @ drop p cr)) = insert (id_r record0) (set (map id_r cr))"
    by (auto simp: idr)
  have rest: "remaining (take p cr @ [?rcd] @ drop p cr) ?rcd recs =
      filter (\<lambda>r. id_r r \<noteq> id_r record0 \<and> id_r r \<notin> set (map id_r cr)) recs"
    unfolding remaining_filter ids idr
    by (rule filter_cong) auto
  from assms(2,3) have "fst (reconcile v ?rcd column recs addToColumn) =
      placeRecord v cr0 ?rcd recs addToColumn
      @ remaining (placeRecord v cr0 ?rcd recs addToColumn) ?rcd recs"
    by (simp add: reconcile_config)
  then have "fst (reconcile v ?rcd column recs addToColumn) =
      (take p cr @ [?rcd] @ drop p cr)
      @ filter (\<lambda>r. id_r r \<noteq> id_r record0 \<and> id_r r \<notin> set (map id_r cr)) recs"
    by (simp only: placed rest)
  then have "persisted (handleRecordUpdate g v record0 column recs addToColumn) column =
      Some (map id_r ((take p cr @ [?rcd] @ drop p cr)
      @ filter (\<lambda>r. id_r r \<noteq> id_r record0 \<and> id_r r \<notin> set (map id_r cr)) recs))"
    by (simp only: persisted_handleRecordUpdate)
  then have "persisted (handleRecordUpdate g v record0 column recs addToColumn) column =
      Some (map id_r (take p cr) @ id_r record0 # map id_r (drop p cr)
         @ map id_r (filter (\<lambda>r. id_r r \<noteq> id_r record0 \<and> id_r r \<notin> set (map id_r cr)) recs))"
    by (simp add: idr)
  moreover have "cr = cr0" if "id_r record0 \<notin> set (map id_r cr0)"
    using that unfolding cr_def by (rule withoutRecord_absent)
  ultimately show ?thesis using le by blast
qed

text \<open>
  Claim C1 as stated, with the indices counted in the resolved list, fails when the
  record is moved within its column: \<open>Done\<close> persisted as \<open>[B, A, C]\<close>, the board shows
  \<open>[A, B, C]\<close>, \<open>B\<close> is dropped behind \<open>A\<close>. The previous neighbour \<open>A\<close> resolves to index 1 of
  the resolved list, so \<open>B\<close> would go to index 2; the handler persists \<open>[A, B, C]\<close>, with
  \<open>B\<close> at index 1.
\<close>

theorem filter_add_slot_not_counted_in_resolved_list:
  "\<not> hasSort (doneBoard False True [''A'', ''B'', ''C''] None (Some [''B'', ''A'', ''C''])) \<and>
   hasFilter (doneBoard False True [''A'', ''B'', ''C''] None (Some [''B'', ''A'', ''C''])) \<and>
   map_option (map id_r)
     (configRecordsOf (doneBoard False True [''A'', ''B'', ''C''] None (Some [''B'', ''A'', ''C'']))
        ''Done'') = Some [''B'', ''A'', ''C''] \<and>
   map_option id_r
     (at [plainRecord ''A'', plainRecord ''B'', plainRecord ''C'']
        (findIndex (\<lambda>r. id_r r = ''B'') [plainRecord ''A'', plainRecord ''B'', plainRecord ''C''] - 1))
     = Some ''A'' \<and>
   Option.bind
     (configRecordsOf (doneBoard False True [''A'', ''B'', ''C''] None (Some [''B'', ''A'', ''C'']))
        ''Done'')
     (\<lambda>configRecords. resolvedIndex configRecords ''A'') = Some 1 \<and>
   persisted (handleRecordUpdate None
       (doneBoard False True [''A'', ''B'', ''C''] None (Some [''B'', ''A'', ''C'']))
       (plainRecord ''B'') ''Done''
       [plainRecord ''A'', plainRecord ''B'', plainRecord ''C''] addToColumn) ''Done''
     = Some [''A'', ''B'', ''C''] \<and>
   [''A'', ''B'', ''C''] ! (1 + 1) \<noteq> ''B''"
  by code_simp

text \<open>
  The scenario of the specification: \<open>Done\<close> persisted as \<open>[A, C]\<close>, the board shows
  \<open>[A, B, C]\<close>, \<open>B\<close> is added; \<open>B\<close> is not in the resolved list, which is left as it is, and
  the result is \<open>[A, B, C]\<close>.
\<close>

theorem filter_add_inserts_at_neighbour_slot_witness:
  "\<not> hasSort (doneBoard False True [''A'', ''B'', ''C''] None (Some [''A'', ''C''])) \<and>
   hasFilter (doneBoard False True [''A'', ''B'', ''C''] None (Some [''A'', ''C''])) \<and>
   configRecordsOf (doneBoard False True [''A'', ''B'', ''C''] None (Some [''A'', ''C''])) ''Done''
     = Some [plainRecord ''A'', plainRecord ''C''] \<and>
   withoutRecord [plainRecord ''A'', plainRecord ''C''] ''B'' = [plainRecord ''A'', plainRecord ''C''] \<and>
   persisted (handleRecordUpdate None
       (doneBoard False True [''A'', ''B'', ''C''] None (Some [''A'', ''C'']))
       (plainRecord ''B'') ''Done''
       [plainRecord ''A'', plainRecord ''B'', plainRecord ''C''] addToColumn) ''Done''
     = Some [''A'', ''B'', ''C'']"
proof -
  let ?v = "doneBoard False True [''A'', ''B'', ''C''] None (Some [''A'', ''C''])"
  let ?recs = "[plainRecord ''A'', plainRecord ''B'', plainRecord ''C'']"
  let ?cr0 = "[plainRecord ''A'', plainRecord ''C'']"
  have h1: "\<not> hasSort ?v" by (simp add: doneBoard_def)
  have h2: "hasFilter ?v" by (simp add: doneBoard_def)
  have h3: "configRecordsOf ?v ''Done'' = Some ?cr0"
    by (simp add: configRecordsOf_def columnRecords_def columnEntry_def doneBoard_def
        frameRecord_def List.map_filter_def)
  have n: "id_r (plainRecord ''B'') \<notin> set (map id_r ?cr0)"
    by (simp add: plainRecord_def)
  note t = filter_add_inserts_at_neighbour_slot [OF h1 h2 h3, where g = None
      and ?record0.0 = "plainRecord ''B''" and recs = ?recs]
  from t n have same: "withoutRecord ?cr0 (id_r (plainRecord ''B'')) = ?cr0"
    by blast
  let ?i = "findIndex (\<lambda>r. id_r r = id_r (plainRecord ''B'')) ?recs"
  let ?cr = "withoutRecord ?cr0 (id_r (plainRecord ''B''))"
  let ?p = "neighbourSlot ?cr (at ?recs (?i - 1)) (at ?recs (?i + 1))"
  from t have "persisted (handleRecordUpdate None ?v (plainRecord ''B'') ''Done'' ?recs addToColumn) ''Done''
     = Some (map id_r (take ?p ?cr) @ id_r (plainRecord ''B'') # map id_r (drop ?p ?cr)
         @ map id_r (filter (\<lambda>r. id_r r \<noteq> id_r (plainRecord ''B'')
              \<and> id_r r \<notin> set (map id_r ?cr)) ?recs))"
    by blast
  also have "\<dots> = Some [''A'', ''B'', ''C'']"
    by code_simp
  finally have "persisted (handleRecordUpdate None ?v (plainRecord ''B'') ''Done'' ?recs addToColumn) ''Done''
     = Some [''A'', ''B'', ''C'']" .
  with h1 h2 h3 same show ?thesis by (simp add: plainRecord_def)
qed


section \<open>The persisted order while a sort is active\<close>

text \<open>
  Claim C5. On \<^verbatim>\<open>addToColumn\<close> with an active sort, where the persisted list of the column
  resolves to \<open>cr0\<close>: the persisted result starts with \<open>cr0\<close> in its order, unchanged;
  the record follows at the end of \<open>cr0\<close> when its id is not in \<open>cr0\<close>, and is left where
  it is otherwise. The records of the board that the config did not list come last.
\<close>

theorem sort_add_appends_or_keeps:
  assumes "hasSort v" and "configRecordsOf v column = Some cr0"
  shows "persisted (handleRecordUpdate g v record0 column recs addToColumn) column =
           Some (map id_r cr0
                 @ (if id_r record0 \<in> set (map id_r cr0) then [] else [id_r record0])
                 @ map id_r (filter (\<lambda>r. id_r r \<noteq> id_r record0 \<and> id_r r \<notin> set (map id_r cr0)) recs))"
proof -
  let ?rcd = "stampGroupBy g addToColumn column record0"
  let ?placed = "placeRecord v cr0 ?rcd recs addToColumn"
  from assms(1) have placed: "?placed = (if id_r record0 \<in> set (map id_r cr0) then cr0 else cr0 @ [?rcd])"
    by (simp add: placeRecord_def stripRecord_def isRecordInConfig_iff id_stampGroupBy)
  have rest: "remaining ?placed ?rcd recs =
      filter (\<lambda>r. id_r r \<noteq> id_r record0 \<and> id_r r \<notin> set (map id_r cr0)) recs"
    unfolding remaining_filter placed
    by (rule filter_cong) (auto simp: id_stampGroupBy)
  from assms have "fst (reconcile v ?rcd column recs addToColumn) =
      ?placed @ remaining ?placed ?rcd recs"
    by (simp add: reconcile_config)
  then have "persisted (handleRecordUpdate g v record0 column recs addToColumn) column =
      Some (map id_r (?placed @ remaining ?placed ?rcd recs))"
    by (simp only: persisted_handleRecordUpdate)
  also have "map id_r (?placed @ remaining ?placed ?rcd recs) =
      map id_r cr0 @ (if id_r record0 \<in> set (map id_r cr0) then [] else [id_r record0])
        @ map id_r (filter (\<lambda>r. id_r r \<noteq> id_r record0 \<and> id_r r \<notin> set (map id_r cr0)) recs)"
    unfolding rest by (simp add: placed id_stampGroupBy)
  finally show ?thesis .
qed

text \<open>
  The scenario of the specification: a column persisted as \<open>[A, B]\<close>, a sort is active,
  \<open>C\<close> is added; \<open>A\<close> and \<open>B\<close> keep their order and \<open>C\<close> goes to the end.
\<close>

theorem sort_add_appends_or_keeps_witness:
  "hasSort (doneBoard True False [''A'', ''B'', ''C''] None (Some [''A'', ''B''])) \<and>
   configRecordsOf (doneBoard True False [''A'', ''B'', ''C''] None (Some [''A'', ''B''])) ''Done''
     = Some [plainRecord ''A'', plainRecord ''B''] \<and>
   persisted (handleRecordUpdate None
       (doneBoard True False [''A'', ''B'', ''C''] None (Some [''A'', ''B'']))
       (plainRecord ''C'') ''Done''
       [plainRecord ''A'', plainRecord ''B'', plainRecord ''C''] addToColumn) ''Done''
     = Some [''A'', ''B'', ''C'']"
proof -
  let ?v = "doneBoard True False [''A'', ''B'', ''C''] None (Some [''A'', ''B''])"
  let ?recs = "[plainRecord ''A'', plainRecord ''B'', plainRecord ''C'']"
  have h1: "hasSort ?v" by (simp add: doneBoard_def)
  have h2: "configRecordsOf ?v ''Done'' = Some [plainRecord ''A'', plainRecord ''B'']"
    by (simp add: configRecordsOf_def columnRecords_def columnEntry_def doneBoard_def
        frameRecord_def List.map_filter_def)
  have "persisted (handleRecordUpdate None ?v (plainRecord ''C'') ''Done'' ?recs addToColumn) ''Done''
     = Some [''A'', ''B'', ''C'']"
    using sort_add_appends_or_keeps [OF h1 h2, of None "plainRecord ''C''" ?recs]
    by (simp add: plainRecord_def)
  with h1 h2 show ?thesis by simp
qed


section \<open>Record updates\<close>

lemma spreadColumns_columnConfig:
  "spreadColumns (Some (columnConfig cfg column ids)) =
     (spreadColumns cfg)(column \<mapsto> (spreadColumn cfg column)\<lparr>records := Some ids\<rparr>)"
  by (simp add: spreadColumns_def columnConfig_def withColumns_def split: option.splits)

lemma orderSyncField_columnConfig:
  "orderSyncField (columnConfig cfg column ids) = Option.bind cfg orderSyncField"
  by (simp add: columnConfig_def withColumns_def split: option.splits)

lemma view_handleRecordUpdate:
  "view (handleRecordUpdate g v r0 column recs trg) =
     v\<lparr>config := Some (columnConfig (config v) column
          (map id_r (fst (reconcile v (stampGroupBy g trg column r0) column recs trg))))\<rparr>"
  by (simp add: handleRecordUpdate_def saveConfig_def Let_def case_prod_beta)

lemma configChanges_handleRecordUpdate:
  "configChanges (handleRecordUpdate g v r0 column recs trg) =
     [columnConfig (config v) column
          (map id_r (fst (reconcile v (stampGroupBy g trg column r0) column recs trg)))]"
  by (simp add: handleRecordUpdate_def saveConfig_def Let_def case_prod_beta)

text \<open>
  Claim C9. On \<^verbatim>\<open>removeFromColumn\<close> no record is handed to \<^verbatim>\<open>api.updateRecord\<close>. The only
  effect is the saved config: it is the previous one (its sync field and all its columns)
  but for the entry of the column, which keeps its properties and gets the new list of
  ids; the one call of \<^verbatim>\<open>onConfigChange\<close> carries it, and nothing else of the component
  changes.
\<close>

theorem remove_emits_no_record_update:
  "recordUpdates (handleRecordUpdate g v record0 column recs removeFromColumn) = [] \<and>
   spreadColumns (config (view (handleRecordUpdate g v record0 column recs removeFromColumn))) =
     (spreadColumns (config v))(column \<mapsto> (spreadColumn (config v) column)
        \<lparr>records := persisted (handleRecordUpdate g v record0 column recs removeFromColumn) column\<rparr>) \<and>
   Option.bind (config (view (handleRecordUpdate g v record0 column recs removeFromColumn))) orderSyncField
     = Option.bind (config v) orderSyncField \<and>
   configChanges (handleRecordUpdate g v record0 column recs removeFromColumn)
     = map the [config (view (handleRecordUpdate g v record0 column recs removeFromColumn))] \<and>
   view (handleRecordUpdate g v record0 column recs removeFromColumn)
     = v\<lparr>config := config (view (handleRecordUpdate g v record0 column recs removeFromColumn))\<rparr>"
proof -
  have "recordUpdates (handleRecordUpdate g v record0 column recs removeFromColumn) = []"
    by (simp add: recordUpdates_handleRecordUpdate recordsToUpdate_def Let_def)
  then show ?thesis
    by (simp add: view_handleRecordUpdate configChanges_handleRecordUpdate
        persisted_handleRecordUpdate spreadColumns_columnConfig orderSyncField_columnConfig)
qed

text \<open>
  Claim C4, as amended. The single update of the mutated record is the path of an active
  sort: when the trigger is not \<^verbatim>\<open>removeFromColumn\<close>, no records were loaded from the
  config and a sort is active, exactly one record is handed to \<^verbatim>\<open>api.updateRecord\<close>, the
  mutated one (with its grouping field set on \<^verbatim>\<open>addToColumn\<close>).
\<close>

theorem unloaded_sorted_updates_only_record:
  assumes "trg \<noteq> removeFromColumn"
    and "\<not> snd (reconcile v (stampGroupBy g trg column record0) column recs trg)"
    and "hasSort v"
  shows "recordUpdates (handleRecordUpdate g v record0 column recs trg)
           = [stampGroupBy g trg column record0]"
  using assms
  by (simp add: recordUpdates_handleRecordUpdate recordsToUpdate_def Let_def split: option.splits)

lemma syncUpdates_enumerate:
  "syncUpdates f record rs i =
     map (\<lambda>(j, r). updateRecordValues (if id_r r = id_r record then record else r) [f \<mapsto> VNumber (int j)])
       (filter (\<lambda>(j, r). id_r r = id_r record \<or> values_r r f \<noteq> Some (VNumber (int j)))
          (enumerate i rs))"
  by (induction rs arbitrary: i) (simp_all add: Let_def)

lemma set_spliceInsert: "set (spliceInsert xs p x) = insert x (set xs)"
proof -
  have u: "set (take s xs) \<union> set (drop s xs) = set xs" for s
    by (metis append_take_drop_id set_append)
  show ?thesis
    by (simp add: spliceInsert_def Let_def u)
qed

lemma placeRecord_add_member:
  assumes "hasSort v \<or> hasFilter v"
  shows "id_r record \<in> set (map id_r (placeRecord v cr0 record recs addToColumn))"
proof (cases "hasSort v")
  case True
  then show ?thesis
    by (simp add: placeRecord_def stripRecord_def isRecordInConfig_iff)
next
  case False
  with assms show ?thesis
    by (simp add: placeRecord_def set_spliceInsert Let_def)
qed


section \<open>The sync field follows the final order\<close>

lemma enumerate_member: "i < length xs \<Longrightarrow> (i, xs ! i) \<in> set (enumerate 0 xs)"
  by (simp add: in_set_enumerate_eq)

text \<open>
  Claim C3, as amended. With a sync field \<open>f\<close>, a trigger other than \<^verbatim>\<open>removeFromColumn\<close>,
  and records loaded from the config or no active sort: the persisted list is the final
  order of the column, and the records handed to \<^verbatim>\<open>api.updateRecord\<close> are, in that order,
  the records of the final order that are the mutated record (whatever it stores) or store
  a value other than their zero-based position. Each update is that record (for the
  mutated record, the one the handler holds) with \<open>f\<close> set to the position; no other record
  is updated. The mutated record is updated where it stands in the final order: it does
  stand there, and is updated, on \<^verbatim>\<open>addToColumn\<close> when records were loaded from the config or
  when it is in the list the board supplies.
\<close>

theorem sync_field_updates_follow_final_order:
  fixes g :: "data_field option" and record0 :: data_record
  assumes "orderSyncFieldName v = Some f"
    and "trg \<noteq> removeFromColumn"
    and "snd (reconcile v (stampGroupBy g trg column record0) column recs trg) \<or> \<not> hasSort v"
  defines "rcd \<equiv> stampGroupBy g trg column record0"
  defines "final \<equiv> fst (reconcile v rcd column recs trg)"
  defines "touched \<equiv> filter (\<lambda>(i, r). id_r r = id_r record0 \<or> values_r r f \<noteq> Some (VNumber (int i)))
                        (enumerate 0 final)"
  shows "persisted (handleRecordUpdate g v record0 column recs trg) column = Some (map id_r final) \<and>
         recordUpdates (handleRecordUpdate g v record0 column recs trg) =
           map (\<lambda>(i, r). updateRecordValues (if id_r r = id_r record0 then rcd else r)
                            [f \<mapsto> VNumber (int i)]) touched \<and>
         map (\<lambda>u. (id_r u, values_r u f)) (recordUpdates (handleRecordUpdate g v record0 column recs trg)) =
           map (\<lambda>(i, r). (id_r r, Some (VNumber (int i)))) touched \<and>
         (trg = addToColumn \<and>
            (snd (reconcile v rcd column recs trg) \<or> id_r record0 \<in> set (map id_r recs))
            \<longrightarrow> id_r record0 \<in> set (map id_r final) \<and>
                id_r record0 \<in> set (map id_r (recordUpdates (handleRecordUpdate g v record0 column recs trg))))"
proof -
  let ?out = "handleRecordUpdate g v record0 column recs trg"
  have idr: "id_r rcd = id_r record0"
    by (simp add: rcd_def id_stampGroupBy)
  have a: "persisted ?out column = Some (map id_r final)"
    by (simp add: persisted_handleRecordUpdate final_def rcd_def)
  from assms(1-3) have "recordUpdates ?out = syncUpdates f rcd final 0"
    by (auto simp: recordUpdates_handleRecordUpdate recordsToUpdate_def Let_def final_def rcd_def)
  then have b: "recordUpdates ?out =
      map (\<lambda>(i, r). updateRecordValues (if id_r r = id_r record0 then rcd else r)
                            [f \<mapsto> VNumber (int i)]) touched"
    by (simp add: syncUpdates_enumerate touched_def idr)
  have c: "map (\<lambda>u. (id_r u, values_r u f)) (recordUpdates ?out) =
      map (\<lambda>(i, r). (id_r r, Some (VNumber (int i)))) touched"
    unfolding b map_map
    by (rule map_cong) (auto simp: updateRecordValues_def idr)
  have d: "id_r record0 \<in> set (map id_r final)"
    if "trg = addToColumn" and "snd (reconcile v rcd column recs trg) \<or> id_r record0 \<in> set (map id_r recs)"
  proof (cases "snd (reconcile v rcd column recs trg)")
    case True
    then obtain cr0 where sf: "hasSort v \<or> hasFilter v" and cr: "configRecordsOf v column = Some cr0"
      by (auto simp: reconcile_loaded)
    then have "final = placeRecord v cr0 rcd recs trg @ remaining (placeRecord v cr0 rcd recs trg) rcd recs"
      by (simp add: final_def reconcile_config)
    moreover from sf have "id_r rcd \<in> set (map id_r (placeRecord v cr0 rcd recs addToColumn))"
      by (rule placeRecord_add_member)
    ultimately show ?thesis using that(1) idr by auto
  next
    case False
    then have "final = recs"
      by (simp add: final_def reconcile_verbatim)
    with False that(2) show ?thesis by simp
  qed
  have e: "id_r record0 \<in> set (map id_r (recordUpdates ?out))"
    if "id_r record0 \<in> set (map id_r final)"
  proof -
    from that obtain i where i: "i < length final" and r: "id_r (final ! i) = id_r record0"
      by (auto simp: in_set_conv_nth)
    then have "(i, final ! i) \<in> set touched"
      by (simp add: touched_def enumerate_member)
    then have "(id_r (final ! i), Some (VNumber (int i)))
        \<in> set (map (\<lambda>(i, r). (id_r r, Some (VNumber (int i)))) touched)"
      by force
    then have "(id_r record0, Some (VNumber (int i)))
        \<in> set (map (\<lambda>u. (id_r u, values_r u f)) (recordUpdates ?out))"
      by (simp only: c r)
    then show ?thesis by auto
  qed
  from a b c d e show ?thesis by blast
qed


section \<open>Record updates on concrete boards\<close>

text \<open>
  A filter active, \<open>Done\<close> persisted as \<open>[A, B]\<close>, sync field \<open>pos\<close>: \<open>R\<close> is dropped between
  \<open>A\<close> (stored position 0) and \<open>B\<close> (stored position 5) and stores 1 already. The records
  are loaded from the config, the persisted list is \<open>[A, R, B]\<close>; \<open>A\<close> is left alone, \<open>R\<close> is
  updated all the same, \<open>B\<close> is set to 2.
\<close>

theorem sync_field_updates_follow_final_order_witness:
  "orderSyncFieldName (posBoard False True
       [placedRecord ''A'' 0, placedRecord ''R'' 1, placedRecord ''B'' 5] (Some [''A'', ''B'']))
     = Some ''pos'' \<and>
   snd (reconcile (posBoard False True
       [placedRecord ''A'' 0, placedRecord ''R'' 1, placedRecord ''B'' 5] (Some [''A'', ''B'']))
     (stampGroupBy None addToColumn ''Done'' (placedRecord ''R'' 1)) ''Done''
     [placedRecord ''A'' 0, placedRecord ''R'' 1, placedRecord ''B'' 5] addToColumn) \<and>
   persisted (handleRecordUpdate None
     (posBoard False True
       [placedRecord ''A'' 0, placedRecord ''R'' 1, placedRecord ''B'' 5] (Some [''A'', ''B'']))
     (placedRecord ''R'' 1) ''Done''
     [placedRecord ''A'' 0, placedRecord ''R'' 1, placedRecord ''B'' 5] addToColumn) ''Done''
     = Some [''A'', ''R'', ''B''] \<and>
   map (\<lambda>u. (id_r u, values_r u ''pos''))
     (recordUpdates (handleRecordUpdate None
        (posBoard False True
          [placedRecord ''A'' 0, placedRecord ''R'' 1, placedRecord ''B'' 5] (Some [''A'', ''B'']))
        (placedRecord ''R'' 1) ''Done''
        [placedRecord ''A'' 0, placedRecord ''R'' 1, placedRecord ''B'' 5] addToColumn))
     = [(''R'', Some (VNumber 1)), (''B'', Some (VNumber 2))] \<and>
   id_r (placedRecord ''R'' 1) \<in> set (map id_r
     (recordUpdates (handleRecordUpdate None
        (posBoard False True
          [placedRecord ''A'' 0, placedRecord ''R'' 1, placedRecord ''B'' 5] (Some [''A'', ''B'']))
        (placedRecord ''R'' 1) ''Done''
        [placedRecord ''A'' 0, placedRecord ''R'' 1, placedRecord ''B'' 5] addToColumn)))"
proof -
  let ?recs = "[placedRecord ''A'' 0, placedRecord ''R'' 1, placedRecord ''B'' 5]"
  let ?v = "posBoard False True ?recs (Some [''A'', ''B''])"
  let ?rcd = "stampGroupBy None addToColumn ''Done'' (placedRecord ''R'' 1)"
  let ?out = "handleRecordUpdate None ?v (placedRecord ''R'' 1) ''Done'' ?recs addToColumn"
  let ?final = "fst (reconcile ?v ?rcd ''Done'' ?recs addToColumn)"
  let ?touched = "filter (\<lambda>(i, r). id_r r = id_r (placedRecord ''R'' 1)
        \<or> values_r r ''pos'' \<noteq> Some (VNumber (int i))) (enumerate 0 ?final)"
  have h1: "orderSyncFieldName ?v = Some ''pos''" by code_simp
  have h2: "addToColumn \<noteq> removeFromColumn" by simp
  have ld: "snd (reconcile ?v ?rcd ''Done'' ?recs addToColumn)" by code_simp
  then have h3: "snd (reconcile ?v ?rcd ''Done'' ?recs addToColumn) \<or> \<not> hasSort ?v" by simp
  note t = sync_field_updates_follow_final_order [OF h1 h2 h3]
  from t have "persisted ?out ''Done'' = Some (map id_r ?final)"
    by blast
  also have "\<dots> = Some [''A'', ''R'', ''B'']"
    by code_simp
  finally have p: "persisted ?out ''Done'' = Some [''A'', ''R'', ''B'']" .
  from t have "map (\<lambda>u. (id_r u, values_r u ''pos'')) (recordUpdates ?out)
     = map (\<lambda>(i, r). (id_r r, Some (VNumber (int i)))) ?touched"
    by blast
  also have "\<dots> = [(''R'', Some (VNumber 1)), (''B'', Some (VNumber 2))]"
    by code_simp
  finally have u: "map (\<lambda>u. (id_r u, values_r u ''pos'')) (recordUpdates ?out)
     = [(''R'', Some (VNumber 1)), (''B'', Some (VNumber 2))]" .
  from t ld have m: "id_r (placedRecord ''R'' 1) \<in> set (map id_r (recordUpdates ?out))"
    by blast
  from h1 ld p u m show ?thesis by blast
qed

text \<open>
  Claim C3 as stated, with an update of the mutated record in every case, fails where the
  handler leaves the record out of the final order. A filter active, \<open>Done\<close> persisted as
  \<open>[A, R, B]\<close>, \<open>R\<close> reordered within the column: the record is taken out of the resolved
  list and not put back, and only \<open>B\<close> is updated. Neither sort nor filter, \<open>R\<close> added but
  not in the list the board supplies: only \<open>A\<close> is updated.
\<close>

theorem mutated_record_left_out_gets_no_update:
  "orderSyncFieldName (posBoard False True
       [placedRecord ''A'' 0, placedRecord ''R'' 1, placedRecord ''B'' 2]
       (Some [''A'', ''R'', ''B''])) = Some ''pos'' \<and>
   reorderWithinColumn \<noteq> removeFromColumn \<and>
   snd (reconcile (posBoard False True
       [placedRecord ''A'' 0, placedRecord ''R'' 1, placedRecord ''B'' 2]
       (Some [''A'', ''R'', ''B'']))
     (stampGroupBy None reorderWithinColumn ''Done'' (placedRecord ''R'' 1)) ''Done''
     [placedRecord ''A'' 0, placedRecord ''R'' 1, placedRecord ''B'' 2] reorderWithinColumn) \<and>
   map id_r (recordUpdates (handleRecordUpdate None
     (posBoard False True
       [placedRecord ''A'' 0, placedRecord ''R'' 1, placedRecord ''B'' 2]
       (Some [''A'', ''R'', ''B'']))
     (placedRecord ''R'' 1) ''Done''
     [placedRecord ''A'' 0, placedRecord ''R'' 1, placedRecord ''B'' 2] reorderWithinColumn)) = [''B''] \<and>
   orderSyncFieldName (posBoard False False [placedRecord ''A'' 5, placedRecord ''R'' 1] None)
     = Some ''pos'' \<and>
   addToColumn \<noteq> removeFromColumn \<and>
   \<not> hasSort (posBoard False False [placedRecord ''A'' 5, placedRecord ''R'' 1] None) \<and>
   map id_r (recordUpdates (handleRecordUpdate None
     (posBoard False False [placedRecord ''A'' 5, placedRecord ''R'' 1] None)
     (placedRecord ''R'' 1) ''Done'' [placedRecord ''A'' 5] addToColumn)) = [''A'']"
  by code_simp

text \<open>
  Claim C4 as stated fails: with a sync field, no sort, no filter (so nothing is loaded
  from the config) and \<open>R\<close> added behind \<open>A\<close>, which stores position 5, two records
  are updated, \<open>A\<close> and \<open>R\<close>.
\<close>

theorem unsorted_unloaded_updates_whole_column:
  "orderSyncFieldName (doneBoard False False [''A'', ''R''] (Some ''pos'') None) = Some ''pos'' \<and>
   addToColumn \<noteq> removeFromColumn \<and>
   \<not> snd (reconcile (doneBoard False False [''A'', ''R''] (Some ''pos'') None)
            (stampGroupBy None addToColumn ''Done'' (plainRecord ''R'')) ''Done''
            [placedRecord ''A'' 5, plainRecord ''R''] addToColumn) \<and>
   \<not> hasSort (doneBoard False False [''A'', ''R''] (Some ''pos'') None) \<and>
   map id_r (recordUpdates (handleRecordUpdate None
        (doneBoard False False [''A'', ''R''] (Some ''pos'') None)
        (plainRecord ''R'') ''Done''
        [placedRecord ''A'' 5, plainRecord ''R''] addToColumn)) = [''A'', ''R'']"
  by code_simp

text \<open>
  The same board with an active sort and no persisted list: only \<open>R\<close> is updated.
\<close>

theorem unloaded_sorted_updates_only_record_witness:
  "orderSyncFieldName (doneBoard True False [''A'', ''R''] (Some ''pos'') None) = Some ''pos'' \<and>
   hasSort (doneBoard True False [''A'', ''R''] (Some ''pos'') None) \<and>
   recordUpdates (handleRecordUpdate None
        (doneBoard True False [''A'', ''R''] (Some ''pos'') None)
        (plainRecord ''R'') ''Done''
        [placedRecord ''A'' 5, plainRecord ''R''] addToColumn) = [plainRecord ''R'']"
proof -
  let ?v = "doneBoard True False [''A'', ''R''] (Some ''pos'') None"
  let ?recs = "[placedRecord ''A'' 5, plainRecord ''R'']"
  have h0: "orderSyncFieldName ?v = Some ''pos''" by code_simp
  have h1: "addToColumn \<noteq> removeFromColumn" by simp
  have h2: "\<not> snd (reconcile ?v (stampGroupBy None addToColumn ''Done'' (plainRecord ''R''))
      ''Done'' ?recs addToColumn)" by code_simp
  have h3: "hasSort ?v" by (simp add: doneBoard_def)
  from unloaded_sorted_updates_only_record [OF h1 h2 h3]
  have "recordUpdates (handleRecordUpdate None ?v (plainRecord ''R'') ''Done'' ?recs addToColumn)
      = [plainRecord ''R'']"
    by (simp add: stampGroupBy_def)
  with h0 h3 show ?thesis by simp
qed


section \<open>Reordering the columns\<close>

lemma foldl_upd_map_of:
  "foldl (\<lambda>m (k, v). m(k \<mapsto> v)) m0 es = m0 ++ map_of (rev es)"
  by (induction es arbitrary: m0) (auto simp: map_add_def fun_eq_iff split: option.splits)

lemma fromEntries_map_of: "fromEntries es = map_of (rev es)"
  by (simp add: fromEntries_def foldl_upd_map_of)

lemma dom_fromEntries: "dom (fromEntries es) = fst ` set es"
  by (simp add: fromEntries_map_of dom_map_of_conv_image_fst)

lemma fromEntries_last:
  assumes "k \<notin> fst ` set zs"
  shows "fromEntries (xs @ (k, e) # zs) k = Some e"
proof -
  from assms have "map_of (rev zs) k = None"
    by (simp add: map_of_eq_None_iff)
  then show ?thesis
    by (simp add: fromEntries_map_of map_add_def)
qed

lemma enumerate_nth_split:
  assumes "i < length xs"
  shows "enumerate 0 xs = enumerate 0 (take i xs) @ (i, xs ! i) # enumerate (Suc i) (drop (Suc i) xs)"
proof -
  from assms have "xs = take i xs @ xs ! i # drop (Suc i) xs"
    by (simp add: id_take_nth_drop)
  then have "enumerate 0 xs = enumerate 0 (take i xs @ xs ! i # drop (Suc i) xs)"
    by simp
  also from assms have "\<dots> = enumerate 0 (take i xs) @ (i, xs ! i) # enumerate (Suc i) (drop (Suc i) xs)"
    by (simp add: enumerate_append_eq min_def)
  finally show ?thesis .
qed

lemma keys_enumerate: "fst ` set (map (\<lambda>(i, n). (n, G i n)) (enumerate k xs)) = set xs"
  by (induction xs arbitrary: k) auto

lemma sortedColumns_dom: "dom (sortedColumns cfg names) = set names"
  by (simp only: sortedColumns_def dom_fromEntries keys_enumerate)

lemma sortedColumns_nth:
  assumes "i < length names" and "names ! i \<notin> set (drop (Suc i) names)"
  shows "sortedColumns cfg names (names ! i) =
           Some ((spreadColumn cfg (names ! i))\<lparr>weight := Some (int i)\<rparr>)"
proof -
  let ?F = "\<lambda>(i, n). (n, (spreadColumn cfg n)\<lparr>weight := Some (int i)\<rparr>)"
  have "fst ` set (map ?F (enumerate (Suc i) (drop (Suc i) names))) = set (drop (Suc i) names)"
    by (rule keys_enumerate)
  with assms(2) have "names ! i \<notin> fst ` set (map ?F (enumerate (Suc i) (drop (Suc i) names)))"
    by blast
  then have "fromEntries (map ?F (enumerate 0 (take i names))
      @ (names ! i, (spreadColumn cfg (names ! i))\<lparr>weight := Some (int i)\<rparr>)
      # map ?F (enumerate (Suc i) (drop (Suc i) names))) (names ! i) =
      Some ((spreadColumn cfg (names ! i))\<lparr>weight := Some (int i)\<rparr>)"
    by (rule fromEntries_last)
  then show ?thesis
    by (simp add: sortedColumns_def enumerate_nth_split [OF assms(1)])
qed

lemma columnEntry_withColumns: "columnEntry (Some (withColumns cfg cols)) c = cols c"
  by (simp add: columnEntry_def withColumns_def split: option.splits)

lemma orderSyncField_withColumns: "orderSyncField (withColumns cfg cols) = Option.bind cfg orderSyncField"
  by (simp add: withColumns_def split: option.splits)

lemma records_spreadColumn: "records (spreadColumn cfg c) = columnRecords cfg c"
  by (simp add: spreadColumn_def columnRecords_def split: option.splits)

text \<open>
  Claim C10. After a column-reorder event with the names \<open>names\<close>, the columns of the new
  config are exactly the named ones. Each named column is its previous entry (an entry
  without properties when there was none), records included, with the weight replaced
  by its index in the list (the index of its last occurrence, should a name be listed
  twice). A column that is not named has no entry any more. The sync field of the config
  is kept, the config is handed to \<^verbatim>\<open>onConfigChange\<close> once, and no record is updated.
\<close>

theorem sort_columns_rebuilds_columns:
  fixes v :: board_view and names :: "string list"
  defines "cfg' \<equiv> config (view (handleSortColumns v names))"
  shows "{c. columnEntry cfg' c \<noteq> None} = set names \<and>
         (\<forall>i < length names. names ! i \<notin> set (drop (Suc i) names) \<longrightarrow>
            columnEntry cfg' (names ! i)
              = Some ((spreadColumn (config v) (names ! i))\<lparr>weight := Some (int i)\<rparr>) \<and>
            columnRecords cfg' (names ! i) = columnRecords (config v) (names ! i)) \<and>
         (\<forall>c. c \<notin> set names \<longrightarrow> columnEntry cfg' c = None) \<and>
         Option.bind cfg' orderSyncField = Option.bind (config v) orderSyncField \<and>
         configChanges (handleSortColumns v names) = map the [cfg'] \<and>
         recordUpdates (handleSortColumns v names) = []"
proof -
  have cfg': "cfg' = Some (withColumns (config v) (sortedColumns (config v) names))"
    by (simp add: cfg'_def handleSortColumns_def saveConfig_def)
  have entry: "columnEntry cfg' c = sortedColumns (config v) names c" for c
    by (simp add: cfg' columnEntry_withColumns)
  have a: "{c. columnEntry cfg' c \<noteq> None} = set names"
    using sortedColumns_dom [of "config v" names] by (simp add: entry dom_def)
  have b: "columnEntry cfg' (names ! i)
              = Some ((spreadColumn (config v) (names ! i))\<lparr>weight := Some (int i)\<rparr>) \<and>
            columnRecords cfg' (names ! i) = columnRecords (config v) (names ! i)"
    if "i < length names" and "names ! i \<notin> set (drop (Suc i) names)" for i
  proof -
    from that have e: "columnEntry cfg' (names ! i)
        = Some ((spreadColumn (config v) (names ! i))\<lparr>weight := Some (int i)\<rparr>)"
      by (simp add: entry sortedColumns_nth)
    then have "columnRecords cfg' (names ! i) = records (spreadColumn (config v) (names ! i))"
      by (simp add: columnRecords_def)
    with e show ?thesis by (simp add: records_spreadColumn)
  qed
  have c: "columnEntry cfg' c = None" if "c \<notin> set names" for c
    using that a by blast
  have d: "Option.bind cfg' orderSyncField = Option.bind (config v) orderSyncField"
    by (simp add: cfg' orderSyncField_withColumns)
  have e: "configChanges (handleSortColumns v names) = map the [cfg']"
    by (simp add: cfg' handleSortColumns_def saveConfig_def)
  have f: "recordUpdates (handleSortColumns v names) = []"
    by (simp add: handleSortColumns_def saveConfig_def)
  from a b c d e f show ?thesis by blast
qed

text \<open>
  A board with the single column \<open>Done\<close> persisted as \<open>[A]\<close>: reordered to \<open>[Todo, Done]\<close>,
  \<open>Done\<close> keeps its records and gets weight 1; reordered to \<open>[Todo, Doing]\<close>, \<open>Done\<close> is
  gone.
\<close>

theorem sort_columns_rebuilds_columns_witness:
  "columnEntry (config (view (handleSortColumns
       (doneBoard False False [''A''] (Some ''pos'') (Some [''A'']))
       [''Todo'', ''Done'']))) ''Done'' = Some \<lparr>weight = Some 1, records = Some [''A'']\<rparr> \<and>
   columnEntry (config (view (handleSortColumns
       (doneBoard False False [''A''] (Some ''pos'') (Some [''A'']))
       [''Todo'', ''Doing'']))) ''Done'' = None"
proof -
  let ?v = "doneBoard False False [''A''] (Some ''pos'') (Some [''A''])"
  have i: "(1::nat) < length [''Todo'', ''Done'']" by simp
  have l: "[''Todo'', ''Done''] ! 1 \<notin> set (drop (Suc 1) [''Todo'', ''Done''])" by simp
  have n: "''Done'' \<notin> set [''Todo'', ''Doing'']" by simp
  have s: "spreadColumn (config ?v) ''Done'' = \<lparr>weight = Some 0, records = Some [''A'']\<rparr>"
    by (simp add: spreadColumn_def columnEntry_def doneBoard_def)
  from sort_columns_rebuilds_columns [of ?v "[''Todo'', ''Done'']"] i l
  have "columnEntry (config (view (handleSortColumns ?v [''Todo'', ''Done'']))) ([''Todo'', ''Done''] ! 1)
      = Some ((spreadColumn (config ?v) ([''Todo'', ''Done''] ! 1))\<lparr>weight := Some (int 1)\<rparr>)"
    by blast
  then have 1: "columnEntry (config (view (handleSortColumns ?v [''Todo'', ''Done'']))) ''Done''
      = Some \<lparr>weight = Some 1, records = Some [''A'']\<rparr>"
    by (simp add: s)
  from sort_columns_rebuilds_columns [of ?v "[''Todo'', ''Doing'']"] n
  have 2: "columnEntry (config (view (handleSortColumns ?v [''Todo'', ''Doing'']))) ''Done'' = None"
    by blast
  from 1 2 show ?thesis by simp
qed


section \<open>Drift: ids that do not resolve\<close>

lemma set_spliceRemove: "set (spliceRemove xs i) \<subseteq> set xs"
  by (auto simp: spliceRemove_def Let_def dest: in_set_takeD in_set_dropD)

lemma set_stripRecord: "set (stripRecord v cr0 record trg) \<subseteq> set cr0"
  using set_spliceRemove [of cr0] by (auto simp: stripRecord_def)

lemma set_placeRecord: "set (placeRecord v cr0 record recs trg) \<subseteq> insert record (set cr0)"
  using set_stripRecord [of v cr0 "record" trg]
  by (auto simp: placeRecord_def Let_def set_spliceInsert)

lemma set_remaining: "set (remaining placed record recs) \<subseteq> set recs"
  by (auto simp: remaining_def)

lemma set_map_filter_getRecord:
  "r \<in> set (List.map_filter gr ids) \<Longrightarrow> \<exists>i \<in> set ids. gr i = Some r"
  by (auto simp: List.map_filter_def)

lemma configRecordsOf_eq:
  "configRecordsOf v column = map_option (List.map_filter (getRecord v)) (columnRecords (config v) column)"
  by (simp add: configRecordsOf_def split: option.splits)

text \<open>
  Claim C7. With a sort or a filter active, an id \<open>x\<close> of the persisted list of the column
  that \<^verbatim>\<open>getRecord\<close> does not resolve is not in the list the handler persists. Unresolvable in
  the live frame means that no record at hand carries the id: \<^verbatim>\<open>getRecord\<close> answers with
  the record of the id it is asked for, and neither the mutated record nor a record the
  board supplies has the id \<open>x\<close>. The handler has no failing branch: the id is dropped
  by the filter behind the \<^verbatim>\<open>map\<close>.
\<close>

theorem unresolvable_ids_are_dropped:
  assumes "hasSort v \<or> hasFilter v"
    and "columnRecords (config v) column = Some ids"
    and "x \<in> set ids"
    and "getRecord v x = None"
    and "getRecordFaithful v"
    and "x \<notin> set (map id_r recs)"
    and "id_r record0 \<noteq> x"
  shows "\<exists>kept. persisted (handleRecordUpdate g v record0 column recs trg) column = Some kept
            \<and> x \<notin> set kept"
proof -
  let ?rcd = "stampGroupBy g trg column record0"
  let ?cr0 = "List.map_filter (getRecord v) ids"
  let ?placed = "placeRecord v ?cr0 ?rcd recs trg"
  let ?final = "?placed @ remaining ?placed ?rcd recs"
  from assms(2) have cr: "configRecordsOf v column = Some ?cr0"
    by (simp add: configRecordsOf_eq)
  have "id_r r \<noteq> x" if "r \<in> set ?cr0" for r
  proof -
    from that obtain i where "getRecord v i = Some r"
      by (blast dest: set_map_filter_getRecord)
    with assms(4,5) show ?thesis
      by (auto simp: getRecordFaithful_def)
  qed
  moreover have "id_r ?rcd \<noteq> x"
    using assms(7) by (simp add: id_stampGroupBy)
  ultimately have "id_r r \<noteq> x" if "r \<in> set ?placed" for r
    using that set_placeRecord [of v ?cr0 ?rcd recs trg] by blast
  moreover have "id_r r \<noteq> x" if "r \<in> set (remaining ?placed ?rcd recs)" for r
    using that assms(6) set_remaining [of ?placed ?rcd recs] by auto
  ultimately have "x \<notin> set (map id_r ?final)"
    by auto
  moreover from assms(1) cr have "persisted (handleRecordUpdate g v record0 column recs trg) column
      = Some (map id_r ?final)"
    by (simp add: persisted_handleRecordUpdate reconcile_config)
  ultimately show ?thesis by blast
qed

text \<open>
  The column persisted as \<open>[A, X, B]\<close>, the frame holds \<open>A\<close> and \<open>B\<close> only, \<open>B\<close> is moved
  to the front while a filter is active: the persisted list is \<open>[B, A]\<close>.
\<close>

theorem unresolvable_ids_are_dropped_witness:
  "hasFilter (doneBoard False True [''A'', ''B''] None (Some [''A'', ''X'', ''B''])) \<and>
   columnRecords (config (doneBoard False True [''A'', ''B''] None (Some [''A'', ''X'', ''B''])))
      ''Done'' = Some [''A'', ''X'', ''B''] \<and>
   getRecord (doneBoard False True [''A'', ''B''] None (Some [''A'', ''X'', ''B''])) ''X'' = None \<and>
   persisted (handleRecordUpdate None
       (doneBoard False True [''A'', ''B''] None (Some [''A'', ''X'', ''B'']))
       (plainRecord ''B'') ''Done'' [plainRecord ''B'', plainRecord ''A''] addToColumn) ''Done''
     = Some [''B'', ''A''] \<and>
   ''X'' \<notin> set [''B'', ''A'']"
proof -
  let ?v = "doneBoard False True [''A'', ''B''] None (Some [''A'', ''X'', ''B''])"
  let ?recs = "[plainRecord ''B'', plainRecord ''A'']"
  have h1: "hasSort ?v \<or> hasFilter ?v" by (simp add: doneBoard_def)
  have h2: "columnRecords (config ?v) ''Done'' = Some [''A'', ''X'', ''B'']"
    by (simp add: columnRecords_def columnEntry_def doneBoard_def)
  have h3: "''X'' \<in> set [''A'', ''X'', ''B'']" by simp
  have h4: "getRecord ?v ''X'' = None" by (simp add: doneBoard_def frameRecord_def)
  have h5: "getRecordFaithful ?v"
    by (simp add: getRecordFaithful_def doneBoard_def frameRecord_def plainRecord_def)
  have h6: "''X'' \<notin> set (map id_r ?recs)" by (simp add: plainRecord_def)
  have h7: "id_r (plainRecord ''B'') \<noteq> ''X''" by (simp add: plainRecord_def)
  from unresolvable_ids_are_dropped [OF h1 h2 h3 h4 h5 h6 h7, of None addToColumn]
  obtain kept where "persisted (handleRecordUpdate None ?v (plainRecord ''B'') ''Done'' ?recs addToColumn) ''Done''
      = Some kept" and "''X'' \<notin> set kept"
    by blast
  moreover have "persisted (handleRecordUpdate None ?v (plainRecord ''B'') ''Done'' ?recs addToColumn) ''Done''
      = Some [''B'', ''A'']"
    by code_simp
  ultimately show ?thesis using h1 h2 h4 by (simp add: doneBoard_def)
qed


section \<open>No repeated ids\<close>

lemma distinct_insert_between:
  "distinct (map f (as @ bs)) \<Longrightarrow> f x \<notin> f ` set (as @ bs) \<Longrightarrow> distinct (map f (as @ [x] @ bs))"
  by auto

lemma distinct_take_insert_drop:
  assumes "distinct (map f xs)" and "f x \<notin> f ` set xs"
  shows "distinct (map f (take s xs @ [x] @ drop s xs))"
proof (rule distinct_insert_between)
  from assms(1) show "distinct (map f (take s xs @ drop s xs))"
    unfolding append_take_drop_id .
  from assms(2) show "f x \<notin> f ` set (take s xs @ drop s xs)"
    unfolding append_take_drop_id .
qed

lemma distinct_spliceInsert:
  assumes "distinct (map f xs)" and "f x \<notin> f ` set xs"
  shows "distinct (map f (spliceInsert xs p x))"
  unfolding spliceInsert_def Let_def using assms by (rule distinct_take_insert_drop)

lemma stripRecord_cases:
  assumes "distinct (map id_r cr0)"
  shows "stripRecord v cr0 record trg =
           (if trg = removeFromColumn \<or> \<not> hasSort v
            then filter (\<lambda>r. id_r r \<noteq> id_r record) cr0 else cr0)"
proof (cases "isRecordInConfig cr0 record")
  case True
  then have "findIndex (\<lambda>r. id_r r = id_r record) cr0 \<noteq> - 1"
    by (simp add: isRecordInConfig_def configRecordIndex_def)
  with assms have "spliceRemove cr0 (findIndex (\<lambda>r. id_r r = id_r record) cr0)
      = filter (\<lambda>r. id_r r \<noteq> id_r record) cr0"
    by (rule spliceRemove_findIndex)
  with True show ?thesis
    by (simp add: stripRecord_def configRecordIndex_def)
next
  case False
  then have "id_r record \<notin> id_r ` set cr0"
    by (simp add: isRecordInConfig_iff)
  then have "\<forall>r \<in> set cr0. id_r r \<noteq> id_r record"
    by (metis imageI)
  then have "filter (\<lambda>r. id_r r \<noteq> id_r record) cr0 = cr0"
    by (simp add: filter_id_conv)
  with False show ?thesis
    by (simp add: stripRecord_def)
qed

lemma distinct_placeRecord:
  assumes "distinct (map id_r cr0)"
  shows "distinct (map id_r (placeRecord v cr0 record recs trg))"
proof -
  let ?gone = "filter (\<lambda>r. id_r r \<noteq> id_r record) cr0"
  from assms have dg: "distinct (map id_r ?gone)"
    by (simp add: distinct_map_filter)
  have ng: "id_r record \<notin> id_r ` set ?gone"
    by auto
  from dg ng have ins: "distinct (map id_r (spliceInsert ?gone p record))" for p
    by (rule distinct_spliceInsert)
  show ?thesis
  proof (cases "trg = addToColumn")
    case False
    with assms dg show ?thesis
      by (simp add: placeRecord_def stripRecord_cases [OF assms])
  next
    case add: True
    show ?thesis
    proof (cases "hasSort v")
      case True
      with add assms show ?thesis
        by (auto simp: placeRecord_def stripRecord_cases [OF assms] isRecordInConfig_iff)
    next
      case False
      with add assms dg ins show ?thesis
        by (simp add: placeRecord_def stripRecord_cases [OF assms] Let_def)
    qed
  qed
qed

lemma distinct_reconciled:
  assumes "distinct (map id_r placed)" and "distinct (map id_r recs)"
  shows "distinct (map id_r (placed @ remaining placed record recs))"
proof -
  from assms(2) have "distinct (map id_r (remaining placed record recs))"
    by (simp add: remaining_filter distinct_map_filter)
  moreover have "k \<notin> id_r ` set placed" if "k \<in> id_r ` set (remaining placed record recs)" for k
    using that by (auto simp: remaining_filter)
  then have "id_r ` set placed \<inter> id_r ` set (remaining placed record recs) = {}"
    by blast
  ultimately show ?thesis using assms(1) by simp
qed

text \<open>
  Claim C2, as amended. The handler does not remove repetitions it is given, and adds
  none: when the list the board supplies has no repeated id and the list resolved from
  the config (if there is one) has no repeated id, the persisted list has no repeated id,
  for every trigger and every setting of sort and filter, also when the id of the
  mutated record is in the persisted list already.
\<close>

theorem distinct_inputs_persist_distinct_ids:
  assumes "distinct (map id_r recs)"
    and "\<forall>cr0. configRecordsOf v column = Some cr0 \<longrightarrow> distinct (map id_r cr0)"
  shows "\<exists>ids. persisted (handleRecordUpdate g v record0 column recs trg) column = Some ids
            \<and> distinct ids"
proof -
  let ?rcd = "stampGroupBy g trg column record0"
  have "distinct (map id_r (fst (reconcile v ?rcd column recs trg)))"
  proof (cases "snd (reconcile v ?rcd column recs trg)")
    case False
    with assms(1) show ?thesis by (simp add: reconcile_verbatim)
  next
    case True
    then obtain cr0 where sf: "hasSort v \<or> hasFilter v" and cr: "configRecordsOf v column = Some cr0"
      by (auto simp: reconcile_loaded)
    from cr assms(2) have "distinct (map id_r cr0)" by blast
    then have "distinct (map id_r (placeRecord v cr0 ?rcd recs trg))"
      by (rule distinct_placeRecord)
    from this assms(1) have "distinct (map id_r (placeRecord v cr0 ?rcd recs trg
        @ remaining (placeRecord v cr0 ?rcd recs trg) ?rcd recs))"
      by (rule distinct_reconciled)
    with sf cr show ?thesis by (simp add: reconcile_config)
  qed
  then show ?thesis by (simp add: persisted_handleRecordUpdate)
qed

text \<open>
  Claim C2 as stated (any persisted config) fails: a column persisted as \<open>[A, A]\<close>, a sort
  active, \<open>B\<close> added; the persisted list is \<open>[A, A, B]\<close>.
\<close>

theorem repeated_persisted_id_stays_repeated:
  "persisted (handleRecordUpdate None
       (doneBoard True False [''A'', ''B''] None (Some [''A'', ''A'']))
       (plainRecord ''B'') ''Done'' [plainRecord ''A'', plainRecord ''B''] addToColumn) ''Done''
     = Some [''A'', ''A'', ''B''] \<and>
   \<not> distinct [''A'', ''A'', ''B'']"
  by code_simp

text \<open>
  The column persisted as \<open>[A, B, C]\<close>, a filter active, \<open>C\<close> moved to the front: \<open>C\<close> is in
  the persisted list already and occurs once in the result.
\<close>

theorem distinct_inputs_persist_distinct_ids_witness:
  "distinct (map id_r [plainRecord ''C'', plainRecord ''A'', plainRecord ''B'']) \<and>
   configRecordsOf (doneBoard False True [''A'', ''B'', ''C''] None (Some [''A'', ''B'', ''C'']))
       ''Done'' = Some [plainRecord ''A'', plainRecord ''B'', plainRecord ''C''] \<and>
   persisted (handleRecordUpdate None
       (doneBoard False True [''A'', ''B'', ''C''] None (Some [''A'', ''B'', ''C'']))
       (plainRecord ''C'') ''Done''
       [plainRecord ''C'', plainRecord ''A'', plainRecord ''B''] addToColumn) ''Done''
     = Some [''C'', ''A'', ''B''] \<and>
   distinct [''C'', ''A'', ''B'']"
proof -
  let ?v = "doneBoard False True [''A'', ''B'', ''C''] None (Some [''A'', ''B'', ''C''])"
  let ?recs = "[plainRecord ''C'', plainRecord ''A'', plainRecord ''B'']"
  have h1: "distinct (map id_r ?recs)" by (simp add: plainRecord_def)
  have cr: "configRecordsOf ?v ''Done'' = Some [plainRecord ''A'', plainRecord ''B'', plainRecord ''C'']"
    by (simp add: configRecordsOf_def columnRecords_def columnEntry_def doneBoard_def
        frameRecord_def List.map_filter_def)
  have h2: "\<forall>cr0. configRecordsOf ?v ''Done'' = Some cr0 \<longrightarrow> distinct (map id_r cr0)"
    by (simp add: cr plainRecord_def)
  from distinct_inputs_persist_distinct_ids [OF h1 h2, of None "plainRecord ''C''" addToColumn]
  obtain ids where "persisted (handleRecordUpdate None ?v (plainRecord ''C'') ''Done'' ?recs addToColumn) ''Done''
      = Some ids" and "distinct ids"
    by blast
  moreover have "persisted (handleRecordUpdate None ?v (plainRecord ''C'') ''Done'' ?recs addToColumn) ''Done''
      = Some [''C'', ''A'', ''B'']"
    by code_simp
  ultimately show ?thesis using h1 cr by simp
qed


section \<open>Missing parts of the config\<close>

lemma orderSyncFieldOf_bind:
  "orderSyncFieldOf v =
     (case Option.bind (config v) orderSyncField of
        None \<Rightarrow> None
      | Some n \<Rightarrow> if n = [] then None else getFieldByName v n)"
  by (simp add: orderSyncFieldOf_def split: option.splits)

lemma placeRecord_config: "placeRecord (v\<lparr>config := c\<rparr>) = placeRecord v"
  by (simp add: placeRecord_def stripRecord_def fun_eq_iff Let_def)

lemma reconcile_config_cong:
  assumes "hasSort v \<or> hasFilter v \<longrightarrow> columnRecords c1 column = columnRecords c2 column"
  shows "reconcile (v\<lparr>config := c1\<rparr>) record column recs trg
           = reconcile (v\<lparr>config := c2\<rparr>) record column recs trg"
  using assms by (auto simp: reconcile_def configRecordsOf_eq placeRecord_config split: option.splits)

lemma handleRecordUpdate_config_cong:
  assumes "hasSort v \<or> hasFilter v \<longrightarrow> columnRecords c1 column = columnRecords c2 column"
    and "\<And>ids. columnConfig c1 column ids = columnConfig c2 column ids"
    and "Option.bind c1 orderSyncField = Option.bind c2 orderSyncField"
  shows "handleRecordUpdate g (v\<lparr>config := c1\<rparr>) record0 column recs trg
           = handleRecordUpdate g (v\<lparr>config := c2\<rparr>) record0 column recs trg"
proof -
  have r: "reconcile (v\<lparr>config := c1\<rparr>) rc column recs trg
      = reconcile (v\<lparr>config := c2\<rparr>) rc column recs trg" for rc
    using assms(1) by (rule reconcile_config_cong)
  have n: "orderSyncFieldName (v\<lparr>config := c1\<rparr>) = orderSyncFieldName (v\<lparr>config := c2\<rparr>)"
    by (auto simp: orderSyncFieldName_def orderSyncFieldOf_bind assms(3) split: option.splits)
  have u: "recordsToUpdate (v\<lparr>config := c1\<rparr>) = recordsToUpdate (v\<lparr>config := c2\<rparr>)"
    by (simp add: recordsToUpdate_def fun_eq_iff n split: option.splits)
  show ?thesis
    by (simp add: handleRecordUpdate_def saveConfig_def r u assms(2))
qed

lemma columnRecords_withDefaults:
  "columnRecords (withDefaults c column) column = columnRecords c column"
  by (simp add: withDefaults_def columnRecords_def columnEntry_withColumns spreadColumn_def
      split: option.splits)

lemma columnConfig_withDefaults:
  "columnConfig (withDefaults c column) column ids = columnConfig c column ids"
  by (simp add: withDefaults_def columnConfig_def withColumns_def spreadColumns_def
      spreadColumn_def columnEntry_def split: option.splits)

lemma orderSyncField_withDefaults:
  "Option.bind (withDefaults c column) orderSyncField = Option.bind c orderSyncField"
  by (simp add: withDefaults_def orderSyncField_withColumns)

lemma columnConfig_withEmptyRecords:
  "columnConfig (withEmptyRecords c column) column ids = columnConfig c column ids"
  by (simp add: withEmptyRecords_def columnConfig_def withColumns_def spreadColumns_def
      spreadColumn_def columnEntry_def split: option.splits)

lemma orderSyncField_withEmptyRecords:
  "Option.bind (withEmptyRecords c column) orderSyncField = Option.bind c orderSyncField"
  by (simp add: withEmptyRecords_def orderSyncField_withColumns)

lemma config_self: "v\<lparr>config := config v\<rparr> = v"
  by simp

text \<open>
  Claim C8, as amended. The handler has no failing branch, whatever is missing from the
  config. It reads the config through the optional chains only, so two configs that
  agree once the empty structures are filled in (no config as \<^verbatim>\<open>{columns: {}}\<close> without a
  sync field, no columns map as \<^verbatim>\<open>{}\<close>, no entry of the column as an entry without
  properties) give the same outcome: the same saved config and the same record updates.
  A missing list of records behaves as the empty list when neither sort nor filter is
  active.
\<close>

theorem missing_config_fields_default:
  "(withDefaults c1 column = withDefaults c2 column \<longrightarrow>
      handleRecordUpdate g (v\<lparr>config := c1\<rparr>) record0 column recs trg
        = handleRecordUpdate g (v\<lparr>config := c2\<rparr>) record0 column recs trg) \<and>
   (\<not> hasSort v \<and> \<not> hasFilter v \<longrightarrow>
      handleRecordUpdate g (v\<lparr>config := withEmptyRecords (config v) column\<rparr>) record0 column recs trg
        = handleRecordUpdate g v record0 column recs trg)"
proof -
  have d: "handleRecordUpdate g (v\<lparr>config := c\<rparr>) record0 column recs trg
      = handleRecordUpdate g (v\<lparr>config := withDefaults c column\<rparr>) record0 column recs trg" for c
    by (rule handleRecordUpdate_config_cong)
      (simp_all add: columnRecords_withDefaults columnConfig_withDefaults orderSyncField_withDefaults)
  have a: "handleRecordUpdate g (v\<lparr>config := c1\<rparr>) record0 column recs trg
        = handleRecordUpdate g (v\<lparr>config := c2\<rparr>) record0 column recs trg"
    if "withDefaults c1 column = withDefaults c2 column"
    using d [of c1] d [of c2] that by simp
  have b: "handleRecordUpdate g (v\<lparr>config := withEmptyRecords (config v) column\<rparr>) record0 column recs trg
        = handleRecordUpdate g v record0 column recs trg"
    if "\<not> hasSort v \<and> \<not> hasFilter v"
  proof -
    have "handleRecordUpdate g (v\<lparr>config := withEmptyRecords (config v) column\<rparr>) record0 column recs trg
        = handleRecordUpdate g (v\<lparr>config := config v\<rparr>) record0 column recs trg"
      using that
      by (intro handleRecordUpdate_config_cong)
        (simp_all add: columnConfig_withEmptyRecords orderSyncField_withEmptyRecords)
    then show ?thesis by (simp only: config_self)
  qed
  from a b show ?thesis by blast
qed

text \<open>
  Claim C8 as stated fails for the list of records of the column: with a filter active,
  an entry without a list makes the handler persist the order of the board, \<open>[A, R, B]\<close>,
  while the empty list makes it reconcile and persist \<open>[R, A, B]\<close>.
\<close>

theorem missing_records_list_is_not_empty_list:
  "persisted (handleRecordUpdate None
       ((doneBoard False True [''A'', ''R'', ''B''] None None)
          \<lparr>config := withEmptyRecords (config (doneBoard False True [''A'', ''R'', ''B''] None None)) ''Done''\<rparr>)
       (plainRecord ''R'') ''Done''
       [plainRecord ''A'', plainRecord ''R'', plainRecord ''B''] addToColumn) ''Done''
     = Some [''R'', ''A'', ''B''] \<and>
   persisted (handleRecordUpdate None
       (doneBoard False True [''A'', ''R'', ''B''] None None)
       (plainRecord ''R'') ''Done''
       [plainRecord ''A'', plainRecord ''R'', plainRecord ''B''] addToColumn) ''Done''
     = Some [''A'', ''R'', ''B'']"
  by code_simp

text \<open>
  The scenario of the specification: no config, neither sort nor filter, \<open>R\<close> added to
  \<open>Todo\<close>; the outcome is that of the config \<^verbatim>\<open>{columns: {}}\<close> and the persisted list is
  \<open>[R]\<close>.
\<close>

theorem missing_config_fields_default_witness:
  "withDefaults None ''Todo''
     = withDefaults (Some \<lparr>orderSyncField = None, columns = Some Map.empty\<rparr>) ''Todo'' \<and>
   handleRecordUpdate None
       ((doneBoard False False [''R''] None None)\<lparr>config := None\<rparr>)
       (plainRecord ''R'') ''Todo'' [plainRecord ''R''] addToColumn
     = handleRecordUpdate None
       ((doneBoard False False [''R''] None None)
          \<lparr>config := Some \<lparr>orderSyncField = None, columns = Some Map.empty\<rparr>\<rparr>)
       (plainRecord ''R'') ''Todo'' [plainRecord ''R''] addToColumn \<and>
   persisted (handleRecordUpdate None
       ((doneBoard False False [''R''] None None)\<lparr>config := None\<rparr>)
       (plainRecord ''R'') ''Todo'' [plainRecord ''R''] addToColumn) ''Todo'' = Some [''R''] \<and>
   \<not> hasSort (doneBoard False False [''R''] None None) \<and>
   \<not> hasFilter (doneBoard False False [''R''] None None) \<and>
   handleRecordUpdate None
       ((doneBoard False False [''R''] None None)
          \<lparr>config := withEmptyRecords (config (doneBoard False False [''R''] None None)) ''Done''\<rparr>)
       (plainRecord ''R'') ''Done'' [plainRecord ''R''] addToColumn
     = handleRecordUpdate None (doneBoard False False [''R''] None None)
       (plainRecord ''R'') ''Done'' [plainRecord ''R''] addToColumn"
proof -
  let ?v = "doneBoard False False [''R''] None None"
  let ?e = "Some \<lparr>orderSyncField = None, columns = Some Map.empty\<rparr>"
  have h1: "withDefaults None ''Todo'' = withDefaults ?e ''Todo''"
    by (simp add: withDefaults_def withColumns_def spreadColumns_def spreadColumn_def columnEntry_def)
  have h2: "\<not> hasSort ?v \<and> \<not> hasFilter ?v" by (simp add: doneBoard_def)
  note t = missing_config_fields_default [of None "''Todo''" ?e None ?v "plainRecord ''R''"
      "[plainRecord ''R'']" addToColumn]
  note s = missing_config_fields_default [of None "''Done''" None None ?v "plainRecord ''R''"
      "[plainRecord ''R'']" addToColumn]
  from t h1 have a: "handleRecordUpdate None (?v\<lparr>config := None\<rparr>) (plainRecord ''R'') ''Todo''
        [plainRecord ''R''] addToColumn
      = handleRecordUpdate None (?v\<lparr>config := ?e\<rparr>) (plainRecord ''R'') ''Todo''
        [plainRecord ''R''] addToColumn"
    by blast
  from s h2 have b: "handleRecordUpdate None (?v\<lparr>config := withEmptyRecords (config ?v) ''Done''\<rparr>)
        (plainRecord ''R'') ''Done'' [plainRecord ''R''] addToColumn
      = handleRecordUpdate None ?v (plainRecord ''R'') ''Done'' [plainRecord ''R''] addToColumn"
    by blast
  have c: "persisted (handleRecordUpdate None (?v\<lparr>config := None\<rparr>) (plainRecord ''R'') ''Todo''
        [plainRecord ''R''] addToColumn) ''Todo'' = Some [''R'']"
    by code_simp
  from h1 h2 a b c show ?thesis by blast
qed


section \<open>Resolving what a first run persisted\<close>














section \<open>The slot of a record that is moved while a filter is active\<close>















section \<open>Handling an event twice\<close>




end
